theory Spec2Isabelle
  imports Main "HOL-Library.AList" "HOL-Library.Char_ord" "HOL-Library.List_Lexorder"
    "HOL-Library.Sublist"
begin

section \<open>Decoded documents\<close>

text \<open>
  The values that the YAML decoder hands to \<^verbatim>\<open>netplan/parser.py\<close>: scalars, Python lists and
  Python dictionaries. The keys of a dictionary are scalars: null, integers and strings. A
  boolean key is the integer that it equals (\<^verbatim>\<open>True\<close> is 1, \<^verbatim>\<open>False\<close> is 0), since Python's
  dictionaries do not tell the two apart. Floating-point numbers, dates and binary data are
  left out.
\<close>

datatype key =
    KNull
  | KInt int
  | KStr string

text \<open>
  A document as a value: a dictionary is an association list in insertion order, with one
  entry per key, which the properties below assume where they need it
  (\<open>distinct (map fst new)\<close>). A value of this type is a tree: no list or dictionary object
  is held at two positions. Documents with such sharing (a decoded YAML alias) are those of
  the store model further below.
\<close>

datatype yaml =
    YNull
  | YBool bool
  | YInt int
  | YStr string
  | YSeq "yaml list"
  | YMap "(key \<times> yaml) list"

type_synonym dict = "(key \<times> yaml) list"

section \<open>Exceptions\<close>

text \<open>
  The messages of the \<^verbatim>\<open>Exception\<close> objects raised by \<^verbatim>\<open>parse_file\<close>, with the value
  that the message is formatted with.
\<close>

datatype message =
    NotADict
  | NoNetwork
  | NoVersion
  | UnsupportedVersion yaml
  | UnsupportedSections "string list"

text \<open>
  \<open>IOError\<close> and \<open>YAMLError\<close> come from opening and decoding a file; \<open>AttributeError\<close>,
  \<open>TypeError\<close>, \<open>IndexError\<close> and \<open>KeyError\<close> from Python operations on a value of the wrong
  type, on an index out of range or on a missing key; \<open>RuntimeError\<close> from a dictionary that
  changes size while it is iterated and \<open>RecursionError\<close> from the recursion limit.
  \<open>SystemError\<close> stands for the use of an address that the store of objects does not hold,
  which no Python program can do. \<open>ParseFileException fname inner\<close> is the class of that
  name.
\<close>

datatype exc =
    IOError
  | YAMLError
  | AttributeError
  | TypeError
  | IndexError
  | KeyError key
  | RuntimeError
  | RecursionError
  | SystemError
  | Exception message
  | ParseFileException string exc

section \<open>Python's container operations\<close>

text \<open>\<^verbatim>\<open>key == x\<close> for a key and a value: \<^verbatim>\<open>1 == True\<close> holds.\<close>

fun py_eq :: "key \<Rightarrow> yaml \<Rightarrow> bool" where
  "py_eq KNull YNull = True"
| "py_eq (KInt n) (YInt m) = (n = m)"
| "py_eq (KInt n) (YBool b) = (n = (if b then 1 else 0))"
| "py_eq (KStr s) (YStr t) = (s = t)"
| "py_eq _ _ = False"

text \<open>
  The position that a list or string of length \<open>n\<close> gives to an index: integers count from
  the front, negative ones from the back, IndexError out of range; any other index is a
  TypeError.
\<close>

definition py_index :: "nat \<Rightarrow> key \<Rightarrow> exc + nat" where
  "py_index n key =
     (case key of
        KInt i \<Rightarrow>
          if 0 \<le> i \<and> i < int n then Inr (nat i)
          else if - int n \<le> i \<and> i < 0 then Inr (nat (int n + i))
          else Inl IndexError
      | _ \<Rightarrow> Inl TypeError)"

text \<open>
  \<^verbatim>\<open>key in cur\<close>: membership of a key in a dictionary, of an equal element in a list, of a
  substring in a string; TypeError for a string and a key that is not a string, and for
  None, booleans and integers, which are not iterable.
\<close>

fun py_contains :: "yaml \<Rightarrow> key \<Rightarrow> exc + bool" where
  "py_contains (YMap d) key = Inr (map_of d key \<noteq> None)"
| "py_contains (YSeq xs) key = Inr (list_ex (py_eq key) xs)"
| "py_contains (YStr s) (KStr k) = Inr (sublist k s)"
| "py_contains _ _ = Inl TypeError"

text \<open>\<^verbatim>\<open>cur[key]\<close>.\<close>

fun py_getitem :: "yaml \<Rightarrow> key \<Rightarrow> exc + yaml" where
  "py_getitem (YMap d) key =
     (case map_of d key of None \<Rightarrow> Inl (KeyError key) | Some v \<Rightarrow> Inr v)"
| "py_getitem (YSeq xs) key =
     (case py_index (length xs) key of Inl e \<Rightarrow> Inl e | Inr i \<Rightarrow> Inr (xs ! i))"
| "py_getitem (YStr s) key =
     (case py_index (length s) key of Inl e \<Rightarrow> Inl e | Inr i \<Rightarrow> Inr (YStr [s ! i]))"
| "py_getitem _ key = Inl TypeError"

text \<open>
  \<^verbatim>\<open>cur[key] = v\<close>, returning \<^verbatim>\<open>cur\<close> as it is afterwards: a dictionary replaces the value of
  a key that it has and appends a key that it has not; a list replaces an element; nothing
  else supports item assignment.
\<close>

fun py_setitem :: "yaml \<Rightarrow> key \<Rightarrow> yaml \<Rightarrow> exc + yaml" where
  "py_setitem (YMap d) key v = Inr (YMap (AList.update key v d))"
| "py_setitem (YSeq xs) key v =
     (case py_index (length xs) key of Inl e \<Rightarrow> Inl e | Inr i \<Rightarrow> Inr (YSeq (xs[i := v])))"
| "py_setitem _ key v = Inl TypeError"

section \<open>The deep merge: \<^verbatim>\<open>Parser._combine_dicts\<close>\<close>

text \<open>
  The loop over \<^verbatim>\<open>new.items()\<close> is the recursion on the second argument; the object
  \<^verbatim>\<open>cur\<close>, mutated in place by the source, is passed along and returned. \<^verbatim>\<open>cur\<close> is the
  accumulator dictionary at the top, and in a recursive call whatever \<^verbatim>\<open>cur[key]\<close> holds.
  The branches are chosen by the type of the value of \<^verbatim>\<open>new\<close>, as \<^verbatim>\<open>isinstance(value, list)\<close>
  and \<^verbatim>\<open>isinstance(value, dict)\<close> do.
  \<^item> \<^verbatim>\<open>cur[key].extend(value)\<close> raises AttributeError unless \<^verbatim>\<open>cur[key]\<close> is a list; the
    extended list is the value under \<^verbatim>\<open>key\<close> afterwards.
  \<^item> \<^verbatim>\<open>self._combine_dicts(cur[key], value)\<close> changes the object under \<^verbatim>\<open>key\<close>; the changed
    object is the value under \<^verbatim>\<open>key\<close> afterwards.
\<close>

fun combine_dicts :: "yaml \<Rightarrow> dict \<Rightarrow> exc + yaml" where
  "combine_dicts cur [] = Inr cur"
| "combine_dicts cur ((key, val) # new) =
     (case py_contains cur key of
        Inl e \<Rightarrow> Inl e
      | Inr False \<Rightarrow>
         (case py_setitem cur key val of
            Inl e \<Rightarrow> Inl e
          | Inr cur' \<Rightarrow> combine_dicts cur' new)
      | Inr True \<Rightarrow>
         (case val of
            YSeq ys \<Rightarrow>
              (case py_getitem cur key of
                 Inl e \<Rightarrow> Inl e
               | Inr (YSeq xs) \<Rightarrow>
                  (case py_setitem cur key (YSeq (xs @ ys)) of
                     Inl e \<Rightarrow> Inl e
                   | Inr cur' \<Rightarrow> combine_dicts cur' new)
               | Inr _ \<Rightarrow> Inl AttributeError)
          | YMap m \<Rightarrow>
              (case py_getitem cur key of
                 Inl e \<Rightarrow> Inl e
               | Inr old \<Rightarrow>
                  (case combine_dicts old m of
                     Inl e \<Rightarrow> Inl e
                   | Inr old' \<Rightarrow>
                      (case py_setitem cur key old' of
                         Inl e \<Rightarrow> Inl e
                       | Inr cur' \<Rightarrow> combine_dicts cur' new)))
          | _ \<Rightarrow>
              (case py_setitem cur key val of
                 Inl e \<Rightarrow> Inl e
               | Inr cur' \<Rightarrow> combine_dicts cur' new)))"

section \<open>The deep merge on a store of objects\<close>

text \<open>
  Python holds lists and dictionaries by reference, and \<^verbatim>\<open>_combine_dicts\<close> changes them in
  place. In this second model of the same method a value is a scalar or the address of an
  object, and a store maps addresses to objects, so that one object can be held at several
  positions, as after the decoding of a YAML alias.
\<close>

datatype pyval =
    PNull
  | PBool bool
  | PInt int
  | PStr string
  | PRef nat

datatype pyobj =
    PList "pyval list"
  | PDict "(key \<times> pyval) list"

type_synonym store = "(nat \<times> pyobj) list"

text \<open>\<^verbatim>\<open>key == x\<close>, \<^verbatim>\<open>key in cur\<close>, \<^verbatim>\<open>cur[key]\<close> and \<^verbatim>\<open>cur[key] = v\<close> on a store.\<close>

fun st_eq :: "key \<Rightarrow> pyval \<Rightarrow> bool" where
  "st_eq KNull PNull = True"
| "st_eq (KInt n) (PInt m) = (n = m)"
| "st_eq (KInt n) (PBool b) = (n = (if b then 1 else 0))"
| "st_eq (KStr s) (PStr t) = (s = t)"
| "st_eq _ _ = False"

fun st_contains :: "store \<Rightarrow> pyval \<Rightarrow> key \<Rightarrow> exc + bool" where
  "st_contains s (PRef a) key =
     (case map_of s a of
        None \<Rightarrow> Inl SystemError
      | Some (PDict d) \<Rightarrow> Inr (map_of d key \<noteq> None)
      | Some (PList xs) \<Rightarrow> Inr (list_ex (st_eq key) xs))"
| "st_contains s (PStr t) (KStr k) = Inr (sublist k t)"
| "st_contains s _ _ = Inl TypeError"

fun st_getitem :: "store \<Rightarrow> pyval \<Rightarrow> key \<Rightarrow> exc + pyval" where
  "st_getitem s (PRef a) key =
     (case map_of s a of
        None \<Rightarrow> Inl SystemError
      | Some (PDict d) \<Rightarrow>
          (case map_of d key of None \<Rightarrow> Inl (KeyError key) | Some v \<Rightarrow> Inr v)
      | Some (PList xs) \<Rightarrow>
          (case py_index (length xs) key of Inl e \<Rightarrow> Inl e | Inr i \<Rightarrow> Inr (xs ! i)))"
| "st_getitem s (PStr t) key =
     (case py_index (length t) key of Inl e \<Rightarrow> Inl e | Inr i \<Rightarrow> Inr (PStr [t ! i]))"
| "st_getitem s _ key = Inl TypeError"

fun st_setitem :: "store \<Rightarrow> pyval \<Rightarrow> key \<Rightarrow> pyval \<Rightarrow> exc + store" where
  "st_setitem s (PRef a) key v =
     (case map_of s a of
        None \<Rightarrow> Inl SystemError
      | Some (PDict d) \<Rightarrow> Inr (AList.update a (PDict (AList.update key v d)) s)
      | Some (PList xs) \<Rightarrow>
          (case py_index (length xs) key of
             Inl e \<Rightarrow> Inl e
           | Inr i \<Rightarrow> Inr (AList.update a (PList (xs[i := v])) s)))"
| "st_setitem s _ key v = Inl TypeError"

text \<open>
  \<^verbatim>\<open>old.extend(value)\<close>, where \<open>ys\<close> are the elements of the list \<^verbatim>\<open>value\<close>: AttributeError
  unless \<^verbatim>\<open>old\<close> is a list, which then grows in place.
\<close>

fun st_extend :: "store \<Rightarrow> pyval \<Rightarrow> pyval list \<Rightarrow> exc + store" where
  "st_extend s (PRef a) ys =
     (case map_of s a of
        None \<Rightarrow> Inl SystemError
      | Some (PList xs) \<Rightarrow> Inr (AList.update a (PList (xs @ ys)) s)
      | Some (PDict d) \<Rightarrow> Inl AttributeError)"
| "st_extend s _ ys = Inl AttributeError"

text \<open>
  The loop \<^verbatim>\<open>for (key, value) in new.items()\<close> of \<^verbatim>\<open>_combine_dicts\<close>, from position \<open>i\<close> on,
  over the dictionary at address \<open>new\<close>, which had \<open>n\<close> items when the loop began. The
  items are read from the store at each step, as the view \<^verbatim>\<open>new.items()\<close> of Python 3 reads
  them from the dictionary, and a dictionary that has changed size makes the iteration
  raise RuntimeError. \<open>depth\<close> is the number of nested calls that the recursion limit still
  allows.
\<close>

function combine_dicts_loop ::
  "nat \<Rightarrow> store \<Rightarrow> pyval \<Rightarrow> nat \<Rightarrow> nat \<Rightarrow> nat \<Rightarrow> exc + store"
where
  "combine_dicts_loop depth s cur new n i =
     (case map_of s new of
        None \<Rightarrow> Inl SystemError
      | Some (PList xs) \<Rightarrow> Inl AttributeError
      | Some (PDict items) \<Rightarrow>
          if length items \<noteq> n then Inl RuntimeError
          else if n \<le> i then Inr s
          else
            (case items ! i of (key, val) \<Rightarrow>
              (case st_contains s cur key of
                 Inl e \<Rightarrow> Inl e
               | Inr False \<Rightarrow>
                  (case st_setitem s cur key val of
                     Inl e \<Rightarrow> Inl e
                   | Inr s' \<Rightarrow> combine_dicts_loop depth s' cur new n (Suc i))
               | Inr True \<Rightarrow>
                  (case val of
                     PRef b \<Rightarrow>
                       (case map_of s b of
                          None \<Rightarrow> Inl SystemError
                        | Some (PList ys) \<Rightarrow>
                            (case st_getitem s cur key of
                               Inl e \<Rightarrow> Inl e
                             | Inr old \<Rightarrow>
                                (case st_extend s old ys of
                                   Inl e \<Rightarrow> Inl e
                                 | Inr s' \<Rightarrow> combine_dicts_loop depth s' cur new n (Suc i)))
                        | Some (PDict m) \<Rightarrow>
                            (case st_getitem s cur key of
                               Inl e \<Rightarrow> Inl e
                             | Inr old \<Rightarrow>
                                (case depth of
                                   0 \<Rightarrow> Inl RecursionError
                                 | Suc depth' \<Rightarrow>
                                    (case combine_dicts_loop depth' s old b (length m) 0 of
                                       Inl e \<Rightarrow> Inl e
                                     | Inr s' \<Rightarrow>
                                         combine_dicts_loop depth s' cur new n (Suc i)))))
                   | _ \<Rightarrow>
                       (case st_setitem s cur key val of
                          Inl e \<Rightarrow> Inl e
                        | Inr s' \<Rightarrow> combine_dicts_loop depth s' cur new n (Suc i))))))"
  by pat_completeness auto
termination
  by (relation "measures [\<lambda>(depth, s, cur, new, n, i). depth,
                          \<lambda>(depth, s, cur, new, n, i). n - i]") auto

text \<open>The call \<^verbatim>\<open>_combine_dicts(cur, new)\<close> on a store.\<close>

definition combine_dicts_store :: "nat \<Rightarrow> store \<Rightarrow> pyval \<Rightarrow> pyval \<Rightarrow> exc + store" where
  "combine_dicts_store depth s cur new =
     (case new of
        PRef b \<Rightarrow>
          (case map_of s b of
             None \<Rightarrow> Inl SystemError
           | Some (PList xs) \<Rightarrow> Inl AttributeError
           | Some (PDict items) \<Rightarrow> combine_dicts_loop depth s cur b (length items) 0)
      | _ \<Rightarrow> Inl AttributeError)"

section \<open>Reading the files: \<^verbatim>\<open>Parser._combine_files\<close>\<close>

datatype cls =
    BondInterface
  | BridgeInterface
  | EthernetInterface
  | VLANInterface
  | WirelessInterface

definition BY_SECTION :: "(key \<times> cls) list" where
  "BY_SECTION =
     [(KStr ''bonds'', BondInterface),
      (KStr ''bridges'', BridgeInterface),
      (KStr ''ethernets'', EthernetInterface),
      (KStr ''vlans'', VLANInterface),
      (KStr ''wifis'', WirelessInterface)]"

definition skeys :: "key set" where
  "skeys = set (map fst BY_SECTION)"

text \<open>
  \<^verbatim>\<open>sorted(keys)\<close>: strings sort among themselves and integers among themselves; any other
  comparison is a TypeError (Python 3; Python 2 sorts every list, and the TypeError comes
  from the \<^verbatim>\<open>join\<close> that follows).
\<close>

fun the_strings :: "key list \<Rightarrow> string list option" where
  "the_strings [] = Some []"
| "the_strings (KStr s # ks) = map_option (\<lambda>ss. s # ss) (the_strings ks)"
| "the_strings (_ # ks) = None"

fun the_ints :: "key list \<Rightarrow> int list option" where
  "the_ints [] = Some []"
| "the_ints (KInt i # ks) = map_option (\<lambda>is. i # is) (the_ints ks)"
| "the_ints (_ # ks) = None"

definition py_sorted :: "key list \<Rightarrow> exc + key list" where
  "py_sorted ks =
     (case the_strings ks of
        Some ss \<Rightarrow> Inr (map KStr (sort ss))
      | None \<Rightarrow>
         (case the_ints ks of
            Some is \<Rightarrow> Inr (map KInt (sort is))
          | None \<Rightarrow> if length ks \<le> 1 then Inr ks else Inl TypeError))"

text \<open>
  The exception of \<^verbatim>\<open>raise Exception('Unsupported section(s) {ms}'.format(ms=', '.join(missing)))\<close>:
  \<^verbatim>\<open>join\<close> raises TypeError for an item that is not a string.
\<close>

definition unsupported_sections :: "key list \<Rightarrow> exc" where
  "unsupported_sections missing =
     (case the_strings missing of
        Some ms \<Rightarrow> Exception (UnsupportedSections ms)
      | None \<Rightarrow> TypeError)"

text \<open>
  \<open>rd fname\<close> is \<^verbatim>\<open>open(fname)\<close> followed by \<^verbatim>\<open>yaml.load\<close>: the decoded document, or the
  exception of the file system or of the decoder. \<^verbatim>\<open>contents.get('network')\<close> and
  \<^verbatim>\<open>net.get('version')\<close> return None for a missing key and for a null value alike;
  \<^verbatim>\<open>net.get\<close> raises AttributeError when \<^verbatim>\<open>net\<close> is not a dictionary.
\<close>

definition parse_file :: "(string \<Rightarrow> exc + yaml) \<Rightarrow> string \<Rightarrow> exc + dict" where
  "parse_file rd fname =
     (case rd fname of
        Inl e \<Rightarrow> Inl e
      | Inr contents \<Rightarrow>
         (case contents of
            YMap d \<Rightarrow>
              (case map_of d (KStr ''network'') of
                 None \<Rightarrow> Inl (Exception NoNetwork)
               | Some YNull \<Rightarrow> Inl (Exception NoNetwork)
               | Some (YMap net) \<Rightarrow>
                   (case map_of net (KStr ''version'') of
                      None \<Rightarrow> Inl (Exception NoVersion)
                    | Some YNull \<Rightarrow> Inl (Exception NoVersion)
                    | Some ver \<Rightarrow>
                        if ver \<noteq> YInt 2 then Inl (Exception (UnsupportedVersion ver))
                        else
                          let net' = AList.delete (KStr ''version'') net
                          in (case py_sorted (filter (\<lambda>k. k \<notin> skeys) (remdups (map fst net'))) of
                                Inl e \<Rightarrow> Inl e
                              | Inr missing \<Rightarrow>
                                  if missing \<noteq> [] then Inl (unsupported_sections missing)
                                  else Inr net'))
               | Some _ \<Rightarrow> Inl AttributeError)
          | _ \<Rightarrow> Inl (Exception NotADict)))"

text \<open>The body of the \<^verbatim>\<open>try\<close> statement for one file.\<close>

definition load_file :: "(string \<Rightarrow> exc + yaml) \<Rightarrow> yaml \<Rightarrow> string \<Rightarrow> exc + yaml" where
  "load_file rd raw fname =
     (case parse_file rd fname of
        Inl e \<Rightarrow> Inl e
      | Inr net \<Rightarrow> combine_dicts raw net)"

text \<open>The loop \<^verbatim>\<open>for fname in files\<close>, with its \<^verbatim>\<open>except Exception\<close> clause.\<close>

fun merge_files :: "(string \<Rightarrow> exc + yaml) \<Rightarrow> yaml \<Rightarrow> string list \<Rightarrow> exc + yaml" where
  "merge_files rd raw [] = Inr raw"
| "merge_files rd raw (fname # files) =
     (case load_file rd raw fname of
        Inl e \<Rightarrow> Inl (ParseFileException fname e)
      | Inr raw' \<Rightarrow> merge_files rd raw' files)"

text \<open>
  The classes of \<^verbatim>\<open>netplan/interface.py\<close> are not among the sources: the object built by
  \<^verbatim>\<open>cls(iface, section, idef)\<close> is kept as that constructor call.
\<close>

datatype iface_obj = New cls key key yaml

type_synonym objects = "(key \<times> iface_obj) list"

text \<open>The inner loop \<^verbatim>\<open>for iface, idef in ifaces.items()\<close>.\<close>

fun build_ifaces :: "cls \<Rightarrow> key \<Rightarrow> objects \<Rightarrow> dict \<Rightarrow> objects" where
  "build_ifaces c section data [] = data"
| "build_ifaces c section data ((iface, idef) # ifaces) =
     build_ifaces c section (AList.update iface (New c iface section idef) data) ifaces"

text \<open>
  The outer loop \<^verbatim>\<open>for section, ifaces in raw.items()\<close>: \<^verbatim>\<open>self.BY_SECTION[section]\<close> raises
  KeyError for a section that is not in the table, \<^verbatim>\<open>ifaces.items()\<close> raises AttributeError
  for a section whose value is not a dictionary. Neither is inside the \<^verbatim>\<open>try\<close> statement.
\<close>

fun build_sections :: "objects \<Rightarrow> dict \<Rightarrow> exc + objects" where
  "build_sections data [] = Inr data"
| "build_sections data ((section, ifaces) # raw) =
     (case map_of BY_SECTION section of
        None \<Rightarrow> Inl (KeyError section)
      | Some c \<Rightarrow>
         (case ifaces of
            YMap m \<Rightarrow> build_sections (build_ifaces c section data m) raw
          | _ \<Rightarrow> Inl AttributeError))"

text \<open>
  \<^verbatim>\<open>raw\<close> starts as the empty dictionary; \<^verbatim>\<open>raw.items()\<close> is an AttributeError for anything
  that is not a dictionary.
\<close>

definition combine_files :: "(string \<Rightarrow> exc + yaml) \<Rightarrow> string list \<Rightarrow> exc + objects" where
  "combine_files rd files =
     (case merge_files rd (YMap []) files of
        Inl e \<Rightarrow> Inl e
      | Inr (YMap raw) \<Rightarrow> build_sections [] raw
      | Inr _ \<Rightarrow> Inl AttributeError)"

section \<open>Locating the files: \<^verbatim>\<open>Parser.find_files\<close> and \<^verbatim>\<open>Parser.parse\<close>\<close>

text \<open>
  The file system as the source sees it: \<^verbatim>\<open>os.path.isdir\<close>, \<^verbatim>\<open>os.path.isfile\<close> and
  \<^verbatim>\<open>os.listdir\<close>, the last one for directories that can be read.
\<close>

text \<open>The default list of directories to look in.\<close>

definition NETPLAN_DIRS :: "string list" where
  "NETPLAN_DIRS = [''/lib/netplan'', ''/etc/netplan'', ''/run/netplan'']"

record filesystem =
  isdir :: "string \<Rightarrow> bool"
  isfile :: "string \<Rightarrow> bool"
  listdir :: "string \<Rightarrow> string list"

definition endswith :: "string \<Rightarrow> string \<Rightarrow> bool" where
  "endswith s ending =
     (length ending \<le> length s \<and> drop (length s - length ending) s = ending)"

text \<open>\<^verbatim>\<open>os.path.join\<close> of two components and \<^verbatim>\<open>os.path.basename\<close>, on POSIX paths.\<close>

definition path_join :: "string \<Rightarrow> string \<Rightarrow> string" where
  "path_join a b =
     (if b \<noteq> [] \<and> hd b = CHR ''/'' then b
      else if a = [] \<or> last a = CHR ''/'' then a @ b
      else a @ ''/'' @ b)"

definition basename :: "string \<Rightarrow> string" where
  "basename p = rev (takeWhile (\<lambda>c. c \<noteq> CHR ''/'') (rev p))"

text \<open>\<^verbatim>\<open>dict(pairs)\<close>: a later pair replaces an earlier one with the same key.\<close>

definition dict_of :: "('k \<times> 'v) list \<Rightarrow> ('k \<times> 'v) list" where
  "dict_of pairs = fold (\<lambda>(k, v) files. AList.update k v files) pairs []"

text \<open>\<^verbatim>\<open>[files[name] for name in names]\<close>, where \<^verbatim>\<open>files[name]\<close> raises KeyError.\<close>

fun getitems :: "(string \<times> 'v) list \<Rightarrow> string list \<Rightarrow> exc + 'v list" where
  "getitems files [] = Inr []"
| "getitems files (name # names) =
     (case map_of files name of
        None \<Rightarrow> Inl (KeyError (KStr name))
      | Some p \<Rightarrow>
         (case getitems files names of
            Inl e \<Rightarrow> Inl e
          | Inr ps \<Rightarrow> Inr (p # ps)))"

definition candidates :: "filesystem \<Rightarrow> string \<Rightarrow> (string \<times> string) list" where
  "candidates fs d =
     filter (\<lambda>i. isfile fs (snd i))
       (map (\<lambda>f. (f, path_join d f))
          (filter (\<lambda>s. endswith s ''.yaml'') (listdir fs d)))"

definition find_files :: "filesystem \<Rightarrow> string list \<Rightarrow> exc + string list" where
  "find_files fs dirs =
     (let files = dict_of (concat (map (candidates fs) (filter (isdir fs) dirs)))
      in getitems files (sort (map fst files)))"

text \<open>
  \<^verbatim>\<open>Parser.parse\<close>; the class \<^verbatim>\<open>NetPlan\<close> of \<^verbatim>\<open>netplan/config.py\<close> that wraps the result is
  not among the sources.
\<close>

definition parse ::
  "filesystem \<Rightarrow> (string \<Rightarrow> exc + yaml) \<Rightarrow> string list \<Rightarrow> string list option \<Rightarrow> exc + objects"
where
  "parse fs rd dirs exclude =
     (case find_files fs dirs of
        Inl e \<Rightarrow> Inl e
      | Inr files \<Rightarrow>
          combine_files rd
            (case exclude of
               None \<Rightarrow> files
             | Some exs \<Rightarrow> filter (\<lambda>f. basename f \<notin> set exs) files))"

section \<open>The relationship resolver\<close>

text \<open>
  Modelled from the spec: \<^verbatim>\<open>netplan/interface.py\<close> is not among the sources. An interface
  has a name, the section it was declared under, its raw definition, and the reference
  fields of its kind: the member names of a bond or a bridge, the link of a VLAN, none for
  an Ethernet or a wireless interface.
\<close>

datatype kind =
    Ethernet
  | Bridge "string list"
  | Bond "string list"
  | VLAN string
  | Wireless

record interface =
  name :: string
  "section" :: string
  raw_definition :: yaml
  kind :: kind

text \<open>
  Modelled from the spec: the outgoing references of an interface (\<^verbatim>\<open>netplan/interface.py\<close>
  is missing): bond and bridge to their members, VLAN to its link.
\<close>

fun references :: "kind \<Rightarrow> string list" where
  "references (Bridge members) = members"
| "references (Bond members) = members"
| "references (VLAN link) = [link]"
| "references Ethernet = []"
| "references Wireless = []"

text \<open>
  Modelled from the spec: the physical kinds (\<^verbatim>\<open>netplan/interface.py\<close> is missing) are
  Ethernet and Wireless.
\<close>

fun physical :: "kind \<Rightarrow> bool" where
  "physical Ethernet = True"
| "physical Wireless = True"
| "physical _ = False"

text \<open>
  Modelled from the spec: the config container of \<^verbatim>\<open>netplan/config.py\<close>, which is missing,
  a mapping from interface name to interface.
\<close>

type_synonym netplan = "(string \<times> interface) list"

text \<open>
  Modelled from the spec: the error of a query for names that are not in the loaded
  configuration (\<^verbatim>\<open>netplan/config.py\<close> is missing); it lists the missing names.
\<close>

datatype query_error = UnresolvedNames "string list"

text \<open>
  Modelled from the spec: the traversal of \<^verbatim>\<open>get_all_interfaces\<close> in \<^verbatim>\<open>netplan/config.py\<close>,
  which is missing: a closure over a worklist of interface names that marks the visited
  ones, following the outgoing references of the interfaces. A name that is already
  marked, or that is not a key of the container, is dropped; any other name is marked and
  the references of its interface join the worklist.
\<close>

function closure :: "netplan \<Rightarrow> string list \<Rightarrow> string list \<Rightarrow> string list" where
  "closure c [] visited = visited"
| "closure c (n # work) visited =
     (if n \<in> set visited then closure c work visited
      else case map_of c n of
             None \<Rightarrow> closure c work visited
           | Some i \<Rightarrow> closure c (references (kind i) @ work) (n # visited))"
  by pat_completeness auto
termination
proof (relation "measures [\<lambda>(c, work, visited). card (fst ` set c - set visited),
                           \<lambda>(c, work, visited). length work]")
  show "wf (measures [\<lambda>(c, work, visited). card (fst ` set c - set visited),
                      \<lambda>(c, work, visited). length work])"
    by simp
next
  fix c :: netplan and n :: string and work visited :: "string list"
  show "((c, work, visited), (c, n # work, visited))
        \<in> measures [\<lambda>(c, work, visited). card (fst ` set c - set visited),
                     \<lambda>(c, work, visited). length work]"
    by simp
next
  fix c :: netplan and n :: string and work visited :: "string list"
  show "((c, work, visited), (c, n # work, visited))
        \<in> measures [\<lambda>(c, work, visited). card (fst ` set c - set visited),
                     \<lambda>(c, work, visited). length work]"
    by simp
next
  fix c :: netplan and n :: string and work visited :: "string list" and i :: interface
  assume fresh: "n \<notin> set visited" and here: "map_of c n = Some i"
  from here have "n \<in> fst ` set c"
    by (metis domI dom_map_of_conv_image_fst)
  with fresh have "fst ` set c - set (n # visited) \<subset> fst ` set c - set visited"
    by auto
  then have "card (fst ` set c - set (n # visited)) < card (fst ` set c - set visited)"
    by (intro psubset_card_mono) auto
  then show "((c, references (kind i) @ work, n # visited), (c, n # work, visited))
        \<in> measures [\<lambda>(c, work, visited). card (fst ` set c - set visited),
                     \<lambda>(c, work, visited). length work]"
    by simp
qed

text \<open>
  Modelled from the spec: \<^verbatim>\<open>get_all_interfaces\<close> and \<^verbatim>\<open>get_physical_interfaces\<close> of
  \<^verbatim>\<open>netplan/config.py\<close>, which is missing. Seed names that are not in the container are
  reported; otherwise the result holds the interfaces of the closure, as they are in the
  container.
\<close>

definition get_all_interfaces :: "netplan \<Rightarrow> string list \<Rightarrow> query_error + netplan" where
  "get_all_interfaces c seed_names =
     (let missing = sorted_list_of_set (set seed_names - fst ` set c)
      in if missing \<noteq> [] then Inl (UnresolvedNames missing)
         else Inr (filter (\<lambda>(n, i). n \<in> set (closure c seed_names [])) c))"

definition get_physical_interfaces :: "netplan \<Rightarrow> string list \<Rightarrow> query_error + netplan" where
  "get_physical_interfaces c seed_names =
     (case get_all_interfaces c seed_names of
        Inl e \<Rightarrow> Inl e
      | Inr found \<Rightarrow> Inr (filter (\<lambda>(n, i). physical (kind i)) found))"

section \<open>Notions used to state the properties\<close>

text \<open>
  The value that one iteration of the loop of \<open>combine_dicts\<close> leaves under its key in a
  dictionary \<^verbatim>\<open>cur\<close>, from the value found there.
\<close>

definition combine_value :: "yaml option \<Rightarrow> yaml \<Rightarrow> exc + yaml" where
  "combine_value cur_val val =
     (case cur_val of
        None \<Rightarrow> Inr val
      | Some old \<Rightarrow>
         (case val of
            YSeq ys \<Rightarrow>
              (case old of
                 YSeq xs \<Rightarrow> Inr (YSeq (xs @ ys))
               | _ \<Rightarrow> Inl AttributeError)
          | YMap m \<Rightarrow> combine_dicts old m
          | _ \<Rightarrow> Inr val))"

text \<open>
  The document that a value of a store stands for, read to a depth of \<open>fuel\<close> objects: an
  object that is held at two positions is read at each of them.
\<close>

fun value_of :: "nat \<Rightarrow> store \<Rightarrow> pyval \<Rightarrow> yaml option" where
  "value_of fuel s PNull = Some YNull"
| "value_of fuel s (PBool b) = Some (YBool b)"
| "value_of fuel s (PInt i) = Some (YInt i)"
| "value_of fuel s (PStr t) = Some (YStr t)"
| "value_of 0 s (PRef a) = None"
| "value_of (Suc fuel) s (PRef a) =
     (case map_of s a of
        None \<Rightarrow> None
      | Some (PList xs) \<Rightarrow> map_option YSeq (those (map (value_of fuel s) xs))
      | Some (PDict d) \<Rightarrow>
          map_option YMap
            (those (map (\<lambda>(k, v). map_option (Pair k) (value_of fuel s v)) d)))"

text \<open>
  Directory \<open>d\<close> exists and lists \<open>n\<close>, a name that ends in \<^verbatim>\<open>.yaml\<close> and is a regular file
  there: the entries that \<open>find_files\<close> keeps.
\<close>

definition offers :: "filesystem \<Rightarrow> string \<Rightarrow> string \<Rightarrow> bool" where
  "offers fs d n \<longleftrightarrow>
     isdir fs d \<and> n \<in> set (listdir fs d) \<and> endswith n ''.yaml''
     \<and> isfile fs (path_join d n)"



text \<open>
  The references relation of a container: \<open>x\<close> is a key whose interface names \<open>y\<close> in its
  reference fields, and \<open>y\<close> is a key too.
\<close>

definition refers :: "netplan \<Rightarrow> (string \<times> string) set" where
  "refers c = {(x, y). \<exists>i. map_of c x = Some i \<and> y \<in> set (references (kind i)) \<and> y \<in> fst ` set c}"

section \<open>Example inputs\<close>

text \<open>A directory of netplan files, as the decoder reads them, for the examples below.\<close>

definition rd_examples :: "string \<Rightarrow> exc + yaml" where
  "rd_examples fname =
     (if fname = ''/etc/netplan/01-base.yaml'' then
        Inr (YMap [(KStr ''network'', YMap [(KStr ''version'', YInt 2),
               (KStr ''ethernets'', YMap [(KStr ''eth0'', YMap [(KStr ''dhcp4'', YBool True)])])])])
      else if fname = ''/etc/netplan/02-version-1.yaml'' then
        Inr (YMap [(KStr ''network'', YMap [(KStr ''version'', YInt 1),
               (KStr ''ethernets'', YMap [(KStr ''eth1'', YMap [])])])])
      else if fname = ''/etc/netplan/03-no-version.yaml'' then
        Inr (YMap [(KStr ''network'', YMap [(KStr ''ethernets'', YMap [(KStr ''eth1'', YMap [])])])])
      else if fname = ''/etc/netplan/04-tunnels.yaml'' then
        Inr (YMap [(KStr ''network'', YMap [(KStr ''version'', YInt 2),
               (KStr ''tunnels'', YMap [(KStr ''tun0'', YMap [])]),
               (KStr ''bridges'', YMap [(KStr ''br0'', YMap [])]),
               (KStr ''modems'', YMap [])])])
      else if fname = ''/etc/netplan/05-broken.yaml'' then Inl YAMLError
      else if fname = ''/etc/netplan/06-list.yaml'' then Inr (YSeq [YStr ''network''])
      else if fname = ''/etc/netplan/07-scalar-network.yaml'' then
        Inr (YMap [(KStr ''network'', YStr ''none'')])
      else if fname = ''/etc/netplan/08-two-keys.yaml'' then
        Inr (YMap [(KStr ''network'', YMap [(KStr ''version'', YInt 2),
               (KStr ''ethernets'', YMap [(KStr ''eth2'', YMap [(KStr ''dhcp4'', YBool True)])])]),
             (KStr ''renderer'', YStr ''networkd'')])
      else if fname = ''/etc/netplan/09-numeric-key.yaml'' then
        Inr (YMap [(KStr ''network'', YMap [(KStr ''version'', YInt 2),
               (KStr ''ethernets'', YMap [(KStr ''eth3'', YMap [])]),
               (KInt 5, YMap [(KStr ''eth4'', YMap [])])])])
      else Inl IOError)"

text \<open>
  A file system where \<^verbatim>\<open>/run/netplan\<close> does not exist, both other directories hold
  \<^verbatim>\<open>10-b.yaml\<close>, and \<^verbatim>\<open>/etc/netplan/old.yaml\<close> is not a regular file.
\<close>

definition fs_example :: filesystem where
  "fs_example =
     \<lparr>isdir = (\<lambda>d. d \<in> set [''/lib/netplan'', ''/etc/netplan'']),
      isfile = (\<lambda>p. p \<in> set [''/lib/netplan/01-a.yaml'', ''/lib/netplan/10-b.yaml'',
                               ''/lib/netplan/README'', ''/etc/netplan/10-b.yaml'',
                               ''/etc/netplan/05-c.yaml'']),
      listdir = (\<lambda>d. if d = ''/lib/netplan'' then [''10-b.yaml'', ''README'', ''01-a.yaml'']
                     else if d = ''/etc/netplan'' then [''old.yaml'', ''10-b.yaml'', ''05-c.yaml'']
                     else [])\<rparr>"

text \<open>
  A container with a bond and a bridge that are members of each other, a bridge member that
  is not defined, a VLAN on an Ethernet interface, and two VLANs linked to each other.
\<close>

definition netplan_example :: netplan where
  "netplan_example =
     [(''bond0'', \<lparr>name = ''bond0'', section = ''bonds'', raw_definition = YMap [],
                   kind = Bond [''br0'', ''eth1'']\<rparr>),
      (''br0'', \<lparr>name = ''br0'', section = ''bridges'', raw_definition = YMap [],
                 kind = Bridge [''bond0'', ''ghost0'']\<rparr>),
      (''eth0'', \<lparr>name = ''eth0'', section = ''ethernets'', raw_definition = YMap [],
                  kind = Ethernet\<rparr>),
      (''eth1'', \<lparr>name = ''eth1'', section = ''ethernets'', raw_definition = YMap [],
                  kind = Ethernet\<rparr>),
      (''vlan10'', \<lparr>name = ''vlan10'', section = ''vlans'',
                    raw_definition = YMap [(KStr ''id'', YInt 10), (KStr ''link'', YStr ''eth0'')],
                    kind = VLAN ''eth0''\<rparr>),
      (''vlan20'', \<lparr>name = ''vlan20'', section = ''vlans'', raw_definition = YMap [],
                    kind = VLAN ''vlan21''\<rparr>),
      (''vlan21'', \<lparr>name = ''vlan21'', section = ''vlans'', raw_definition = YMap [],
                    kind = VLAN ''vlan20''\<rparr>),
      (''wlan0'', \<lparr>name = ''wlan0'', section = ''wifis'', raw_definition = YMap [],
                   kind = Wireless\<rparr>)]"



text \<open>
  Two documents, at the addresses 0 and 1. In the first, \<^verbatim>\<open>eth0\<close> and \<^verbatim>\<open>eth1\<close> hold one
  and the same list; the second has a list for each. Then the store after their merge.
\<close>

definition store_twice :: store where
  "store_twice =
     [(0, PDict [(KStr ''eth0'', PRef 2), (KStr ''eth1'', PRef 2)]),
      (1, PDict [(KStr ''eth0'', PRef 3), (KStr ''eth1'', PRef 4)]),
      (2, PList [PInt 1]),
      (3, PList [PInt 2]),
      (4, PList [PInt 3])]"

definition store_twice_merged :: store where
  "store_twice_merged =
     [(0, PDict [(KStr ''eth0'', PRef 2), (KStr ''eth1'', PRef 2)]),
      (1, PDict [(KStr ''eth0'', PRef 3), (KStr ''eth1'', PRef 4)]),
      (2, PList [PInt 1, PInt 2, PInt 3]),
      (3, PList [PInt 2]),
      (4, PList [PInt 3])]"

text \<open>
  Two documents without shared objects, at the addresses 0 and 1, and the store after their
  merge.
\<close>

definition store_plain :: store where
  "store_plain =
     [(0, PDict [(KStr ''eth0'', PRef 2)]),
      (1, PDict [(KStr ''eth0'', PRef 3), (KStr ''eth1'', PRef 6)]),
      (2, PDict [(KStr ''addresses'', PRef 4), (KStr ''mtu'', PInt 1500)]),
      (3, PDict [(KStr ''addresses'', PRef 5), (KStr ''mtu'', PInt 9000)]),
      (4, PList [PStr ''10.0.0.1/24'']),
      (5, PList [PStr ''10.0.0.2/24'']),
      (6, PDict [])]"

definition store_plain_merged :: store where
  "store_plain_merged =
     [(0, PDict [(KStr ''eth0'', PRef 2), (KStr ''eth1'', PRef 6)]),
      (1, PDict [(KStr ''eth0'', PRef 3), (KStr ''eth1'', PRef 6)]),
      (2, PDict [(KStr ''addresses'', PRef 4), (KStr ''mtu'', PInt 9000)]),
      (3, PDict [(KStr ''addresses'', PRef 5), (KStr ''mtu'', PInt 9000)]),
      (4, PList [PStr ''10.0.0.1/24'', PStr ''10.0.0.2/24'']),
      (5, PList [PStr ''10.0.0.2/24'']),
      (6, PDict [])]"

section \<open>Properties of the deep merge\<close>

text \<open>
  On documents without shared objects the merge on the store and the merge of the values
  give the same document, as on this example.
\<close>

lemma combine_dicts_store_plain:
  "value_of 3 store_plain (PRef 0)
     = Some (YMap [(KStr ''eth0'', YMap [(KStr ''addresses'', YSeq [YStr ''10.0.0.1/24'']),
                                        (KStr ''mtu'', YInt 1500)])])
   \<and> value_of 3 store_plain (PRef 1)
     = Some (YMap [(KStr ''eth0'', YMap [(KStr ''addresses'', YSeq [YStr ''10.0.0.2/24'']),
                                        (KStr ''mtu'', YInt 9000)]),
                   (KStr ''eth1'', YMap [])])
   \<and> combine_dicts
         (YMap [(KStr ''eth0'', YMap [(KStr ''addresses'', YSeq [YStr ''10.0.0.1/24'']),
                                     (KStr ''mtu'', YInt 1500)])])
         [(KStr ''eth0'', YMap [(KStr ''addresses'', YSeq [YStr ''10.0.0.2/24'']),
                                (KStr ''mtu'', YInt 9000)]),
          (KStr ''eth1'', YMap [])]
     = Inr (YMap [(KStr ''eth0'',
                   YMap [(KStr ''addresses'', YSeq [YStr ''10.0.0.1/24'', YStr ''10.0.0.2/24'']),
                         (KStr ''mtu'', YInt 9000)]),
                  (KStr ''eth1'', YMap [])])
   \<and> combine_dicts_store 10 store_plain (PRef 0) (PRef 1) = Inr store_plain_merged
   \<and> value_of 3 store_plain_merged (PRef 0)
     = Some (YMap [(KStr ''eth0'',
                    YMap [(KStr ''addresses'', YSeq [YStr ''10.0.0.1/24'', YStr ''10.0.0.2/24'']),
                          (KStr ''mtu'', YInt 9000)]),
                   (KStr ''eth1'', YMap [])])"
  by code_simp

lemma combine_dicts_Cons:
  "combine_dicts (YMap d) ((key, val) # new) =
     (case combine_value (map_of d key) val of
        Inl e \<Rightarrow> Inl e
      | Inr v \<Rightarrow> combine_dicts (YMap (AList.update key v d)) new)"
  by (cases "map_of d key")
     (auto simp: combine_value_def split: yaml.split sum.split)

lemma map_of_Some_key: "map_of cur key = Some old \<Longrightarrow> key \<in> fst ` set cur"
  by (metis domI dom_map_of_conv_image_fst)

lemma keys_update: "fst ` set (AList.update k v al) = insert k (fst ` set al)"
  using dom_update [of k v al] by (simp add: dom_map_of_conv_image_fst)

lemma combine_dicts_dict:
  "combine_dicts (YMap d) new = Inr res \<Longrightarrow> \<exists>r. res = YMap r"
proof (induction new arbitrary: d)
  case Nil
  then show ?case by auto
next
  case (Cons p new)
  obtain k v where p: "p = (k, v)" by (cases p)
  from Cons.prems p obtain v' where
    rest: "combine_dicts (YMap (AList.update k v' d)) new = Inr res"
    by (auto simp: combine_dicts_Cons simp del: combine_dicts.simps split: sum.splits)
  from Cons.IH [OF rest] show ?case .
qed

lemma combine_dicts_frame:
  "combine_dicts (YMap d) new = Inr (YMap res) \<Longrightarrow> k \<notin> fst ` set new \<Longrightarrow>
   map_of res k = map_of d k"
proof (induction new arbitrary: d)
  case Nil
  then show ?case by simp
next
  case (Cons p new)
  obtain key val where p: "p = (key, val)" by (cases p)
  from Cons.prems(2) p have kne: "k \<noteq> key" and knew: "k \<notin> fst ` set new" by auto
  from Cons.prems(1) p obtain v' where
    rest: "combine_dicts (YMap (AList.update key v' d)) new = Inr (YMap res)"
    by (auto simp: combine_dicts_Cons simp del: combine_dicts.simps split: sum.splits)
  from Cons.IH [OF rest knew] kne show ?case by (simp add: update_conv')
qed

lemma combine_dicts_keys:
  "combine_dicts (YMap d) new = Inr (YMap res) \<Longrightarrow>
   fst ` set res = fst ` set d \<union> fst ` set new"
proof (induction new arbitrary: d)
  case Nil
  then show ?case by simp
next
  case (Cons p new)
  obtain key val where p: "p = (key, val)" by (cases p)
  from Cons.prems(1) p obtain v' where
    rest: "combine_dicts (YMap (AList.update key v' d)) new = Inr (YMap res)"
    by (auto simp: combine_dicts_Cons simp del: combine_dicts.simps split: sum.splits)
  from Cons.IH [OF rest] p show ?case by (auto simp: keys_update)
qed

lemma combine_dicts_value:
  "combine_dicts (YMap d) new = Inr (YMap res) \<Longrightarrow> distinct (map fst new) \<Longrightarrow>
   (key, val) \<in> set new \<Longrightarrow>
   \<exists>v. combine_value (map_of d key) val = Inr v \<and> map_of res key = Some v"
proof (induction new arbitrary: d)
  case Nil
  then show ?case by simp
next
  case (Cons p new)
  obtain k v where p: "p = (k, v)" by (cases p)
  from Cons.prems(1) p obtain v' where
    item: "combine_value (map_of d k) v = Inr v'"
    and rest: "combine_dicts (YMap (AList.update k v' d)) new = Inr (YMap res)"
    by (auto simp: combine_dicts_Cons simp del: combine_dicts.simps split: sum.splits)
  from Cons.prems(2) p have fresh: "k \<notin> fst ` set new" and dist: "distinct (map fst new)"
    by auto
  show ?case
  proof (cases "(key, val) = p")
    case True
    with p item combine_dicts_frame [OF rest fresh] show ?thesis
      by (auto simp: update_conv')
  next
    case False
    with Cons.prems(3) have mem: "(key, val) \<in> set new" by simp
    with fresh have ne: "key \<noteq> k" by force
    then have same: "map_of (AList.update k v' d) key = map_of d key"
      by (simp add: update_conv')
    from Cons.IH [OF rest dist mem] same show ?thesis by simp
  qed
qed

text \<open>
  The merge into a dictionary returns a result when every item of \<open>new\<close> can be combined
  with what the dictionary holds under its key.
\<close>

lemma combine_dicts_succeeds:
  "distinct (map fst new) \<Longrightarrow>
   \<forall>(key, val) \<in> set new. \<exists>v. combine_value (map_of d key) val = Inr v \<Longrightarrow>
   \<exists>res. combine_dicts (YMap d) new = Inr (YMap res)"
proof (induction new arbitrary: d)
  case Nil
  then show ?case by simp
next
  case (Cons p new)
  obtain k v where p: "p = (k, v)" by (cases p)
  from Cons.prems(2) p obtain r where item: "combine_value (map_of d k) v = Inr r" by auto
  from Cons.prems(1) p have fresh: "k \<notin> fst ` set new" and dist: "distinct (map fst new)"
    by auto
  have "\<forall>(key, val) \<in> set new.
      \<exists>v. combine_value (map_of (AList.update k r d) key) val = Inr v"
  proof (clarify)
    fix key val
    assume mem: "(key, val) \<in> set new"
    with fresh have "key \<noteq> k" by force
    then have "map_of (AList.update k r d) key = map_of d key"
      by (simp add: update_conv')
    with Cons.prems(2) mem
    show "\<exists>v. combine_value (map_of (AList.update k r d) key) val = Inr v"
      by auto
  qed
  from Cons.IH [OF dist this] item p show ?case
    by (simp add: combine_dicts_Cons del: combine_dicts.simps)
qed

lemma update_fresh: "k \<notin> fst ` set al \<Longrightarrow> AList.update k v al = al @ [(k, v)]"
  by (induction al) auto

text \<open>Merging keys that the dictionary does not have appends them.\<close>

lemma combine_dicts_fresh:
  "distinct (map fst new) \<Longrightarrow> fst ` set d \<inter> fst ` set new = {} \<Longrightarrow>
   combine_dicts (YMap d) new = Inr (YMap (d @ new))"
proof (induction new arbitrary: d)
  case Nil
  then show ?case by simp
next
  case (Cons p new)
  obtain k v where p: "p = (k, v)" by (cases p)
  from Cons.prems p have notin: "k \<notin> fst ` set d" by auto
  then have none: "map_of d k = None" by (simp add: map_of_eq_None_iff)
  from Cons.prems p have "fst ` set (d @ [(k, v)]) \<inter> fst ` set new = {}"
    and "distinct (map fst new)" by auto
  from Cons.IH [OF this(2) this(1)] none p update_fresh [OF notin, of v] show ?case
    by (simp add: combine_dicts_Cons combine_value_def del: combine_dicts.simps)
qed

text \<open>
  Claim C1, for documents that are trees of values (no list or mapping object is held at two
  positions), and with the rules chosen by the type of the new value, as the source chooses
  them. When the merge of \<open>cur\<close> and \<open>new\<close> returns \<open>res\<close>, every item \<open>(key, val)\<close> of \<open>new\<close>
  has been applied by these rules: a key absent in \<open>cur\<close> is copied in; when the existing
  and the new value are both sequences, the new elements are appended after the existing
  ones, in order and with duplicates; when both are mappings, the key holds their
  recursive merge; when the new value is neither a sequence nor a mapping, it replaces
  the existing value, whatever that was.
\<close>

theorem combine_dicts_rules:
  assumes "combine_dicts (YMap cur) new = Inr (YMap res)"
    and "distinct (map fst new)"
    and "(key, val) \<in> set new"
  shows "(map_of cur key = None \<longrightarrow> map_of res key = Some val)
       \<and> (\<forall>xs ys. map_of cur key = Some (YSeq xs) \<and> val = YSeq ys
            \<longrightarrow> map_of res key = Some (YSeq (xs @ ys)))
       \<and> (\<forall>d m. map_of cur key = Some (YMap d) \<and> val = YMap m
            \<longrightarrow> (\<exists>d'. combine_dicts (YMap d) m = Inr (YMap d')
                      \<and> map_of res key = Some (YMap d')))
       \<and> (\<forall>old. map_of cur key = Some old \<and> (\<forall>ys. val \<noteq> YSeq ys) \<and> (\<forall>m. val \<noteq> YMap m)
            \<longrightarrow> map_of res key = Some val)"
proof -
  from combine_dicts_value [OF assms] obtain v where
    v: "combine_value (map_of cur key) val = Inr v" and r: "map_of res key = Some v"
    by blast
  have nested: "\<exists>d'. v = YMap d' \<and> combine_dicts (YMap d) m = Inr (YMap d')"
    if "map_of cur key = Some (YMap d)" and "val = YMap m" for d m
  proof -
    from v that have "combine_dicts (YMap d) m = Inr v" by (simp add: combine_value_def)
    with combine_dicts_dict [OF this] show ?thesis by auto
  qed
  from v r nested show ?thesis
    unfolding combine_value_def
    by (cases val) (auto split: option.splits yaml.splits sum.splits if_splits)
qed

theorem combine_dicts_rules_witness:
  "combine_dicts
     (YMap [(KStr ''mtu'', YInt 9000), (KStr ''addresses'', YSeq [YStr ''a'']),
            (KStr ''routes'', YMap [(KStr ''via'', YStr ''x'')])])
     [(KStr ''addresses'', YSeq [YStr ''b'', YStr ''a'']), (KStr ''mtu'', YInt 1500)]
   = Inr (YMap [(KStr ''mtu'', YInt 1500),
                (KStr ''addresses'', YSeq [YStr ''a'', YStr ''b'', YStr ''a'']),
                (KStr ''routes'', YMap [(KStr ''via'', YStr ''x'')])])
   \<and> map_of [(KStr ''mtu'', YInt 1500),
             (KStr ''addresses'', YSeq [YStr ''a'', YStr ''b'', YStr ''a'']),
             (KStr ''routes'', YMap [(KStr ''via'', YStr ''x'')])] (KStr ''addresses'')
     = Some (YSeq ([YStr ''a''] @ [YStr ''b'', YStr ''a'']))"
  using combine_dicts_rules [of
    "[(KStr ''mtu'', YInt 9000), (KStr ''addresses'', YSeq [YStr ''a'']),
      (KStr ''routes'', YMap [(KStr ''via'', YStr ''x'')])]"
    "[(KStr ''addresses'', YSeq [YStr ''b'', YStr ''a'']), (KStr ''mtu'', YInt 1500)]"
    "[(KStr ''mtu'', YInt 1500), (KStr ''addresses'', YSeq [YStr ''a'', YStr ''b'', YStr ''a'']),
      (KStr ''routes'', YMap [(KStr ''via'', YStr ''x'')])]"
    "KStr ''addresses''" "YSeq [YStr ''b'', YStr ''a'']"]
  by simp

text \<open>
  The rules do not depend on the type of the existing value alone: an existing scalar is
  kept when the new value is an empty mapping, and the merge of a sequence into an
  existing scalar raises. And they describe trees only: when one list is held under two
  keys of the first document, the merge appends to it once for each of the two keys, and
  each key ends with all the elements.
\<close>

theorem combine_dicts_rules_counterexample:
  "combine_dicts (YMap [(KStr ''mtu'', YInt 1500)]) [(KStr ''mtu'', YMap [])]
     = Inr (YMap [(KStr ''mtu'', YInt 1500)])
   \<and> combine_dicts (YMap [(KStr ''mtu'', YInt 1500)]) [(KStr ''mtu'', YSeq [YInt 9000])]
     = Inl AttributeError
   \<and> value_of 2 store_twice (PRef 0)
     = Some (YMap [(KStr ''eth0'', YSeq [YInt 1]), (KStr ''eth1'', YSeq [YInt 1])])
   \<and> value_of 2 store_twice (PRef 1)
     = Some (YMap [(KStr ''eth0'', YSeq [YInt 2]), (KStr ''eth1'', YSeq [YInt 3])])
   \<and> combine_dicts_store 10 store_twice (PRef 0) (PRef 1) = Inr store_twice_merged
   \<and> value_of 2 store_twice_merged (PRef 0)
     = Some (YMap [(KStr ''eth0'', YSeq [YInt 1, YInt 2, YInt 3]),
                   (KStr ''eth1'', YSeq [YInt 1, YInt 2, YInt 3])])"
  by code_simp





section \<open>Properties of the load\<close>

lemma merge_files_append:
  "merge_files rd raw (pre @ rest) =
     (case merge_files rd raw pre of Inl e \<Rightarrow> Inl e | Inr raw' \<Rightarrow> merge_files rd raw' rest)"
  by (induction pre arbitrary: raw) (auto split: sum.splits)

lemma merge_files_first_error:
  assumes "merge_files rd raw0 pre = Inr raw" and "load_file rd raw f = Inl e"
  shows "merge_files rd raw0 (pre @ f # post) = Inl (ParseFileException f e)"
  using assms by (simp add: merge_files_append)

lemma combine_files_first_error:
  assumes "merge_files rd (YMap []) pre = Inr raw" and "load_file rd raw f = Inl e"
  shows "combine_files rd (pre @ f # post) = Inl (ParseFileException f e)"
  using merge_files_first_error [OF assms] by (simp add: combine_files_def)

lemma load_file_parse_error: "parse_file rd f = Inl e \<Longrightarrow> load_file rd raw f = Inl e"
  by (simp add: load_file_def)

lemma parse_file_rd_error: "rd f = Inl e \<Longrightarrow> parse_file rd f = Inl e"
  by (simp add: parse_file_def)

lemma skeys_eq:
  "skeys = {KStr ''bonds'', KStr ''bridges'', KStr ''ethernets'', KStr ''vlans'', KStr ''wifis''}"
  by (auto simp: skeys_def BY_SECTION_def)

lemma the_strings_iff: "the_strings ks = Some ss \<longleftrightarrow> ks = map KStr ss"
proof (induction ks arbitrary: ss)
  case Nil
  then show ?case by auto
next
  case (Cons k ks)
  then show ?case by (cases k; cases ss) auto
qed

lemma the_ints_iff: "the_ints ks = Some is \<longleftrightarrow> ks = map KInt is"
proof (induction ks arbitrary: "is")
  case Nil
  then show ?case by auto
next
  case (Cons k ks)
  then show ?case by (cases k; cases "is") auto
qed

lemma sort_Nil: "sort xs = [] \<Longrightarrow> xs = []"
  by (metis length_sort length_0_conv)

lemma py_sorted_Nil: "py_sorted ks = Inr [] \<Longrightarrow> ks = []"
  by (auto simp: py_sorted_def the_strings_iff the_ints_iff
      split: option.splits if_splits dest: sort_Nil)

lemma py_sorted_strings: "py_sorted (map KStr ss) = Inr (map KStr (sort ss))"
proof -
  have "the_strings (map KStr ss) = Some ss" by (simp add: the_strings_iff)
  then show ?thesis by (simp add: py_sorted_def)
qed

lemma unsupported_sections_strings:
  "unsupported_sections (map KStr ms) = Exception (UnsupportedSections ms)"
proof -
  have "the_strings (map KStr ms) = Some ms" by (simp add: the_strings_iff)
  then show ?thesis by (simp add: unsupported_sections_def)
qed

lemma parse_file_keys:
  assumes "parse_file rd f = Inr net"
  shows "fst ` set net \<subseteq> skeys"
proof -
  from assms have "py_sorted (filter (\<lambda>k. k \<notin> skeys) (remdups (map fst net))) = Inr []"
    unfolding parse_file_def
    by (auto simp: Let_def split: sum.splits yaml.splits option.splits if_splits)
  then have "filter (\<lambda>k. k \<notin> skeys) (remdups (map fst net)) = []"
    by (rule py_sorted_Nil)
  then show ?thesis by (auto simp: filter_empty_conv)
qed

lemma load_file_keys:
  assumes "load_file rd (YMap raw) f = Inr res" and "fst ` set raw \<subseteq> skeys"
  shows "\<exists>r. res = YMap r \<and> fst ` set r \<subseteq> skeys"
proof -
  from assms(1) obtain net where
    net: "parse_file rd f = Inr net" and merged: "combine_dicts (YMap raw) net = Inr res"
    by (auto simp: load_file_def split: sum.splits)
  from combine_dicts_dict [OF merged] obtain r where r: "res = YMap r" by blast
  from combine_dicts_keys [OF merged [unfolded r]] parse_file_keys [OF net] assms(2) r
  show ?thesis by simp
qed

lemma merge_files_keys:
  "merge_files rd (YMap raw) files = Inr res \<Longrightarrow> fst ` set raw \<subseteq> skeys \<Longrightarrow>
   \<exists>r. res = YMap r \<and> fst ` set r \<subseteq> skeys"
proof (induction files arbitrary: raw)
  case Nil
  then show ?case by auto
next
  case (Cons f files)
  from Cons.prems(1) obtain raw' where
    step: "load_file rd (YMap raw) f = Inr raw'" and rest: "merge_files rd raw' files = Inr res"
    by (auto split: sum.splits)
  from load_file_keys [OF step Cons.prems(2)] obtain r where
    r: "raw' = YMap r" and keys: "fst ` set r \<subseteq> skeys" by blast
  from Cons.IH [OF rest [unfolded r] keys] show ?case .
qed

lemma merge_files_error_wrapped:
  "merge_files rd raw files = Inl x \<Longrightarrow> \<exists>f \<in> set files. \<exists>e. x = ParseFileException f e"
  by (induction files arbitrary: raw) (auto split: sum.splits)

lemma build_sections_no_KeyError:
  "fst ` set raw \<subseteq> skeys \<Longrightarrow> build_sections data raw \<noteq> Inl (KeyError s)"
proof (induction raw arbitrary: data)
  case Nil
  then show ?case by simp
next
  case (Cons p raw)
  obtain sect ifaces where p: "p = (sect, ifaces)" by (cases p)
  from Cons.prems p have "sect \<in> skeys" and rest: "fst ` set raw \<subseteq> skeys" by auto
  then obtain c where "map_of BY_SECTION sect = Some c"
    by (auto simp: skeys_def BY_SECTION_def)
  with Cons.IH [OF rest] p show ?case
    by (auto split: yaml.splits)
qed

lemma merge_files_all_parsed:
  "merge_files rd raw files = Inr res \<Longrightarrow> f \<in> set files \<Longrightarrow> \<exists>net. parse_file rd f = Inr net"
proof (induction files arbitrary: raw)
  case Nil
  then show ?case by simp
next
  case (Cons g files)
  from Cons.prems(1) obtain raw' where
    step: "load_file rd raw g = Inr raw'" and rest: "merge_files rd raw' files = Inr res"
    by (auto split: sum.splits)
  show ?case
  proof (cases "f = g")
    case True
    with step show ?thesis by (auto simp: load_file_def split: sum.splits)
  next
    case False
    with Cons.prems(2) have "f \<in> set files" by simp
    from Cons.IH [OF rest this] show ?thesis .
  qed
qed

lemma rd_examples_base:
  "merge_files rd_examples (YMap []) [''/etc/netplan/01-base.yaml'']
   = Inr (YMap [(KStr ''ethernets'', YMap [(KStr ''eth0'', YMap [(KStr ''dhcp4'', YBool True)])])])"
  by code_simp

text \<open>
  Claim C4. A file whose \<^verbatim>\<open>network\<close> mapping has no \<^verbatim>\<open>version\<close> (no key, or a null value),
  or a version other than 2, makes the load fail with a ParseFileException that names the
  file, when the files before it have been read and merged. The inner exception is the
  missing-version one in the first case and the unsupported-version one, with the value
  found, in the second; the two differ.
\<close>

theorem version_rejected:
  assumes "merge_files rd (YMap []) pre = Inr raw"
    and "rd f = Inr (YMap doc)"
    and "map_of doc (KStr ''network'') = Some (YMap net)"
  shows "(map_of net (KStr ''version'') = None \<or> map_of net (KStr ''version'') = Some YNull
            \<longrightarrow> combine_files rd (pre @ f # post)
                = Inl (ParseFileException f (Exception NoVersion)))
       \<and> (\<forall>ver. map_of net (KStr ''version'') = Some ver \<and> ver \<noteq> YNull \<and> ver \<noteq> YInt 2
            \<longrightarrow> combine_files rd (pre @ f # post)
                = Inl (ParseFileException f (Exception (UnsupportedVersion ver))))
       \<and> (\<forall>ver. Exception NoVersion \<noteq> Exception (UnsupportedVersion ver))"
proof (intro conjI allI impI)
  assume "map_of net (KStr ''version'') = None \<or> map_of net (KStr ''version'') = Some YNull"
  with assms(2,3) have "parse_file rd f = Inl (Exception NoVersion)"
    by (auto simp: parse_file_def)
  then have "load_file rd raw f = Inl (Exception NoVersion)"
    by (rule load_file_parse_error)
  from combine_files_first_error [OF assms(1) this]
  show "combine_files rd (pre @ f # post) = Inl (ParseFileException f (Exception NoVersion))" .
next
  fix ver
  assume "map_of net (KStr ''version'') = Some ver \<and> ver \<noteq> YNull \<and> ver \<noteq> YInt 2"
  with assms(2,3) have "parse_file rd f = Inl (Exception (UnsupportedVersion ver))"
    by (auto simp: parse_file_def split: yaml.splits)
  then have "load_file rd raw f = Inl (Exception (UnsupportedVersion ver))"
    by (rule load_file_parse_error)
  from combine_files_first_error [OF assms(1) this]
  show "combine_files rd (pre @ f # post)
        = Inl (ParseFileException f (Exception (UnsupportedVersion ver)))" .
next
  fix ver
  show "Exception NoVersion \<noteq> Exception (UnsupportedVersion ver)" by simp
qed

theorem version_rejected_witness:
  "combine_files rd_examples
     [''/etc/netplan/01-base.yaml'', ''/etc/netplan/02-version-1.yaml'', ''/etc/netplan/04-tunnels.yaml'']
   = Inl (ParseFileException ''/etc/netplan/02-version-1.yaml'' (Exception (UnsupportedVersion (YInt 1))))
   \<and> combine_files rd_examples
     [''/etc/netplan/01-base.yaml'', ''/etc/netplan/03-no-version.yaml'', ''/etc/netplan/04-tunnels.yaml'']
   = Inl (ParseFileException ''/etc/netplan/03-no-version.yaml'' (Exception NoVersion))"
  using version_rejected [of rd_examples "[''/etc/netplan/01-base.yaml'']"
      "YMap [(KStr ''ethernets'', YMap [(KStr ''eth0'', YMap [(KStr ''dhcp4'', YBool True)])])]"
      "''/etc/netplan/02-version-1.yaml''"
      "[(KStr ''network'', YMap [(KStr ''version'', YInt 1), (KStr ''ethernets'', YMap [(KStr ''eth1'', YMap [])])])]"
      "[(KStr ''version'', YInt 1), (KStr ''ethernets'', YMap [(KStr ''eth1'', YMap [])])]"
      "[''/etc/netplan/04-tunnels.yaml'']"]
    version_rejected [of rd_examples "[''/etc/netplan/01-base.yaml'']"
      "YMap [(KStr ''ethernets'', YMap [(KStr ''eth0'', YMap [(KStr ''dhcp4'', YBool True)])])]"
      "''/etc/netplan/03-no-version.yaml''"
      "[(KStr ''network'', YMap [(KStr ''ethernets'', YMap [(KStr ''eth1'', YMap [])])])]"
      "[(KStr ''ethernets'', YMap [(KStr ''eth1'', YMap [])])]"
      "[''/etc/netplan/04-tunnels.yaml'']"]
    rd_examples_base
  by (simp add: rd_examples_def)

text \<open>
  A file of version 2 whose \<^verbatim>\<open>network\<close> mapping has keys, other than \<^verbatim>\<open>version\<close>, that are
  not among the five section names, all of them strings, makes the load fail with a
  ParseFileException that names the file, when the files before it have been read and
  merged. The inner exception lists exactly the unrecognized keys, sorted and without
  repetition.
\<close>

lemma only_strings:
  "\<forall>k \<in> set ks. \<exists>s. k = KStr s \<Longrightarrow> \<exists>ss. ks = map KStr ss"
proof (induction ks)
  case Nil
  then show ?case by simp
next
  case (Cons k ks)
  then obtain s ss where "k = KStr s" and "ks = map KStr ss" by auto
  then have "k # ks = map KStr (s # ss)" by simp
  then show ?case by (rule exI [of _ "s # ss"])
qed

lemma unknown_section_rejected:
  assumes "merge_files rd (YMap []) pre = Inr raw"
    and "rd f = Inr (YMap doc)"
    and "map_of doc (KStr ''network'') = Some (YMap net)"
    and "map_of net (KStr ''version'') = Some (YInt 2)"
    and "\<forall>k \<in> fst ` set net. k \<notin> skeys \<longrightarrow> (\<exists>s. k = KStr s)"
    and "KStr u \<in> fst ` set net"
    and "u \<noteq> ''version''"
    and "u \<notin> {''bonds'', ''bridges'', ''ethernets'', ''vlans'', ''wifis''}"
  shows "\<exists>missing.
           combine_files rd (pre @ f # post)
             = Inl (ParseFileException f (Exception (UnsupportedSections missing)))
         \<and> u \<in> set missing
         \<and> set missing = {s. KStr s \<in> fst ` set net \<and> s \<noteq> ''version''
                              \<and> s \<notin> {''bonds'', ''bridges'', ''ethernets'', ''vlans'', ''wifis''}}
         \<and> sorted missing \<and> distinct missing"
proof -
  define ks where
    "ks = filter (\<lambda>k. k \<notin> skeys) (remdups (map fst (AList.delete (KStr ''version'') net)))"
  have set_ks: "set ks = {k \<in> fst ` set net. k \<noteq> KStr ''version'' \<and> k \<notin> skeys}"
    by (auto simp: ks_def delete_keys)
  have dist_ks: "distinct ks" by (simp add: ks_def)
  from set_ks assms(5) have "\<forall>k \<in> set ks. \<exists>s. k = KStr s" by auto
  from only_strings [OF this] obtain ss where ss: "ks = map KStr ss" by blast
  define missing where "missing = sort ss"
  from ss dist_ks have dist: "distinct missing"
    by (simp add: missing_def distinct_map)
  have sorted: "sorted missing" by (simp add: missing_def)
  have set_missing: "set missing = {s. KStr s \<in> fst ` set net \<and> s \<noteq> ''version''
      \<and> s \<notin> {''bonds'', ''bridges'', ''ethernets'', ''vlans'', ''wifis''}}"
  proof -
    have "set missing = {s. KStr s \<in> set ks}"
      by (auto simp: missing_def ss)
    also have "\<dots> = {s. KStr s \<in> fst ` set net \<and> s \<noteq> ''version''
      \<and> s \<notin> {''bonds'', ''bridges'', ''ethernets'', ''vlans'', ''wifis''}}"
      by (auto simp: set_ks skeys_eq)
    finally show ?thesis .
  qed
  with assms(6-8) have mem: "u \<in> set missing" by simp
  then have nonempty: "map KStr missing \<noteq> []" by auto
  have "py_sorted ks = Inr (map KStr missing)"
    by (simp add: ss missing_def py_sorted_strings)
  with assms(2-4) nonempty
  have "parse_file rd f = Inl (Exception (UnsupportedSections missing))"
    by (simp add: parse_file_def ks_def [symmetric] unsupported_sections_strings)
  then have "load_file rd raw f = Inl (Exception (UnsupportedSections missing))"
    by (rule load_file_parse_error)
  from combine_files_first_error [OF assms(1) this]
  have result: "combine_files rd (pre @ f # post)
      = Inl (ParseFileException f (Exception (UnsupportedSections missing)))" .
  with mem set_missing sorted dist show ?thesis by blast
qed

text \<open>
  Claim C5 does not hold for an unrecognized key that is not a string: the load fails and
  the error names the file, but it does not report the unrecognized sections. The file
  \<^verbatim>\<open>09-numeric-key.yaml\<close> declares the section \<^verbatim>\<open>5\<close> beside \<^verbatim>\<open>ethernets\<close>; the join of the
  names for the message raises TypeError, and that is the error of the load. With the
  unrecognized sections \<^verbatim>\<open>tunnels\<close> and \<^verbatim>\<open>modems\<close> of \<^verbatim>\<open>04-tunnels.yaml\<close> the error reports
  them.
\<close>

theorem unknown_section_not_reported:
  "rd_examples ''/etc/netplan/09-numeric-key.yaml''
     = Inr (YMap [(KStr ''network'', YMap [(KStr ''version'', YInt 2),
               (KStr ''ethernets'', YMap [(KStr ''eth3'', YMap [])]),
               (KInt 5, YMap [(KStr ''eth4'', YMap [])])])])
   \<and> combine_files rd_examples
         [''/etc/netplan/01-base.yaml'', ''/etc/netplan/09-numeric-key.yaml'']
     = Inl (ParseFileException ''/etc/netplan/09-numeric-key.yaml'' TypeError)
   \<and> combine_files rd_examples
         [''/etc/netplan/01-base.yaml'', ''/etc/netplan/04-tunnels.yaml'']
     = Inl (ParseFileException ''/etc/netplan/04-tunnels.yaml''
              (Exception (UnsupportedSections [''modems'', ''tunnels''])))"
  by code_simp

text \<open>
  Claim C6. An exception raised while a file is read, decoded, checked or merged ends the
  load with a ParseFileException that carries the path of that file and the exception; a
  failure of the decoder is such an exception; and a list of files of which one fails its
  checks never yields a configuration.
\<close>

theorem per_file_error_aborts:
  "(merge_files rd (YMap []) pre = Inr raw \<and> load_file rd raw f = Inl e
      \<longrightarrow> combine_files rd (pre @ f # post) = Inl (ParseFileException f e))
   \<and> (rd f = Inl e \<longrightarrow> load_file rd raw f = Inl e)
   \<and> (f \<in> set files \<and> parse_file rd f = Inl e
      \<longrightarrow> (\<exists>f' \<in> set files. \<exists>e'. combine_files rd files = Inl (ParseFileException f' e')))"
proof (intro conjI impI)
  assume "merge_files rd (YMap []) pre = Inr raw \<and> load_file rd raw f = Inl e"
  then show "combine_files rd (pre @ f # post) = Inl (ParseFileException f e)"
    by (simp add: combine_files_first_error)
next
  assume "rd f = Inl e"
  then show "load_file rd raw f = Inl e"
    by (simp add: parse_file_rd_error load_file_parse_error)
next
  assume bad: "f \<in> set files \<and> parse_file rd f = Inl e"
  show "\<exists>f' \<in> set files. \<exists>e'. combine_files rd files = Inl (ParseFileException f' e')"
  proof (cases "merge_files rd (YMap []) files")
    case (Inl x)
    with merge_files_error_wrapped [OF Inl] show ?thesis
      by (auto simp: combine_files_def)
  next
    case (Inr res)
    from merge_files_all_parsed [OF Inr] bad show ?thesis by fastforce
  qed
qed

theorem per_file_error_aborts_witness:
  "rd_examples ''/etc/netplan/05-broken.yaml'' = Inl YAMLError
   \<and> combine_files rd_examples
     [''/etc/netplan/01-base.yaml'', ''/etc/netplan/05-broken.yaml'', ''/etc/netplan/08-two-keys.yaml'']
   = Inl (ParseFileException ''/etc/netplan/05-broken.yaml'' YAMLError)"
  using per_file_error_aborts [of rd_examples "[''/etc/netplan/01-base.yaml'']"
      "YMap [(KStr ''ethernets'', YMap [(KStr ''eth0'', YMap [(KStr ''dhcp4'', YBool True)])])]"
      "''/etc/netplan/05-broken.yaml''" YAMLError "[''/etc/netplan/08-two-keys.yaml'']"]
    rd_examples_base
  by (simp add: rd_examples_def)

text \<open>
  Claim C7, without the check for a single top-level key, which the source does not make.
  A file whose document is not a mapping, or has no \<^verbatim>\<open>network\<close> key (or a null one), or
  whose \<^verbatim>\<open>network\<close> value is not a mapping, makes the load fail with a ParseFileException
  that names the file, when the files before it have been read and merged.
\<close>

theorem document_shape_rejected:
  assumes "merge_files rd (YMap []) pre = Inr raw"
    and "rd f = Inr contents"
  shows "((\<forall>d. contents \<noteq> YMap d)
            \<longrightarrow> combine_files rd (pre @ f # post)
                = Inl (ParseFileException f (Exception NotADict)))
       \<and> (\<forall>d. contents = YMap d
              \<and> (map_of d (KStr ''network'') = None \<or> map_of d (KStr ''network'') = Some YNull)
            \<longrightarrow> combine_files rd (pre @ f # post)
                = Inl (ParseFileException f (Exception NoNetwork)))
       \<and> (\<forall>d v. contents = YMap d \<and> map_of d (KStr ''network'') = Some v
              \<and> v \<noteq> YNull \<and> (\<forall>net. v \<noteq> YMap net)
            \<longrightarrow> combine_files rd (pre @ f # post)
                = Inl (ParseFileException f AttributeError))"
proof (intro conjI allI impI)
  assume "\<forall>d. contents \<noteq> YMap d"
  with assms(2) have "parse_file rd f = Inl (Exception NotADict)"
    by (cases contents) (simp_all add: parse_file_def)
  then have "load_file rd raw f = Inl (Exception NotADict)"
    by (rule load_file_parse_error)
  from combine_files_first_error [OF assms(1) this]
  show "combine_files rd (pre @ f # post) = Inl (ParseFileException f (Exception NotADict))" .
next
  fix d
  assume "contents = YMap d
      \<and> (map_of d (KStr ''network'') = None \<or> map_of d (KStr ''network'') = Some YNull)"
  with assms(2) have "parse_file rd f = Inl (Exception NoNetwork)"
    by (auto simp: parse_file_def)
  then have "load_file rd raw f = Inl (Exception NoNetwork)"
    by (rule load_file_parse_error)
  from combine_files_first_error [OF assms(1) this]
  show "combine_files rd (pre @ f # post) = Inl (ParseFileException f (Exception NoNetwork))" .
next
  fix d v
  assume "contents = YMap d \<and> map_of d (KStr ''network'') = Some v
      \<and> v \<noteq> YNull \<and> (\<forall>net. v \<noteq> YMap net)"
  with assms(2) have "parse_file rd f = Inl AttributeError"
    by (cases v) (simp_all add: parse_file_def)
  then have "load_file rd raw f = Inl AttributeError"
    by (rule load_file_parse_error)
  from combine_files_first_error [OF assms(1) this]
  show "combine_files rd (pre @ f # post) = Inl (ParseFileException f AttributeError)" .
qed

theorem document_shape_rejected_witness:
  "combine_files rd_examples
     [''/etc/netplan/01-base.yaml'', ''/etc/netplan/06-list.yaml'']
   = Inl (ParseFileException ''/etc/netplan/06-list.yaml'' (Exception NotADict))
   \<and> combine_files rd_examples
     [''/etc/netplan/01-base.yaml'', ''/etc/netplan/07-scalar-network.yaml'']
   = Inl (ParseFileException ''/etc/netplan/07-scalar-network.yaml'' AttributeError)"
  using document_shape_rejected [of rd_examples "[''/etc/netplan/01-base.yaml'']"
      "YMap [(KStr ''ethernets'', YMap [(KStr ''eth0'', YMap [(KStr ''dhcp4'', YBool True)])])]"
      "''/etc/netplan/06-list.yaml''" "YSeq [YStr ''network'']" "[]"]
    document_shape_rejected [of rd_examples "[''/etc/netplan/01-base.yaml'']"
      "YMap [(KStr ''ethernets'', YMap [(KStr ''eth0'', YMap [(KStr ''dhcp4'', YBool True)])])]"
      "''/etc/netplan/07-scalar-network.yaml''" "YMap [(KStr ''network'', YStr ''none'')]" "[]"]
    rd_examples_base
  by (simp add: rd_examples_def)

text \<open>
  A document with a second top-level key beside \<^verbatim>\<open>network\<close> is accepted: the key is
  ignored.
\<close>

theorem document_shape_rejected_counterexample:
  "rd_examples ''/etc/netplan/08-two-keys.yaml''
   = Inr (YMap [(KStr ''network'', YMap [(KStr ''version'', YInt 2),
               (KStr ''ethernets'', YMap [(KStr ''eth2'', YMap [(KStr ''dhcp4'', YBool True)])])]),
             (KStr ''renderer'', YStr ''networkd'')])
   \<and> combine_files rd_examples [''/etc/netplan/08-two-keys.yaml'']
   = Inr [(KStr ''eth2'', New EthernetInterface (KStr ''eth2'') (KStr ''ethernets'') (YMap [(KStr ''dhcp4'', YBool True)]))]"
  by code_simp

text \<open>
  Claim C10. The section lookup of the interface construction never fails: a load never
  ends in the KeyError of \<^verbatim>\<open>self.BY_SECTION[section]\<close>, and when every file has been read
  and merged, every top-level key of the merged document is in the table of the five
  section names.
\<close>

theorem section_lookup_total:
  "(\<forall>s. combine_files rd files \<noteq> Inl (KeyError s))
   \<and> (\<forall>raw. merge_files rd (YMap []) files = Inr raw
        \<longrightarrow> (\<exists>r. raw = YMap r
               \<and> (\<forall>section \<in> fst ` set r. \<exists>c. map_of BY_SECTION section = Some c)))"
proof (intro conjI allI impI)
  fix s
  show "combine_files rd files \<noteq> Inl (KeyError s)"
  proof (cases "merge_files rd (YMap []) files")
    case (Inl x)
    with merge_files_error_wrapped [OF Inl] show ?thesis
      by (auto simp: combine_files_def)
  next
    case (Inr raw)
    from merge_files_keys [OF Inr] obtain r where
      r: "raw = YMap r" and keys: "fst ` set r \<subseteq> skeys" by auto
    from build_sections_no_KeyError [OF keys] Inr r show ?thesis
      by (simp add: combine_files_def)
  qed
next
  fix raw
  assume ok: "merge_files rd (YMap []) files = Inr raw"
  from merge_files_keys [OF ok] obtain r where
    r: "raw = YMap r" and keys: "fst ` set r \<subseteq> skeys" by auto
  have "\<exists>c. map_of BY_SECTION sect = Some c" if "sect \<in> fst ` set r" for sect
  proof -
    from that keys have "sect \<in> skeys" by auto
    then show ?thesis by (auto simp: skeys_def BY_SECTION_def)
  qed
  with r show "\<exists>r. raw = YMap r
      \<and> (\<forall>section \<in> fst ` set r. \<exists>c. map_of BY_SECTION section = Some c)"
    by blast
qed

theorem section_lookup_total_witness:
  "merge_files rd_examples (YMap []) [''/etc/netplan/01-base.yaml'']
     = Inr (YMap [(KStr ''ethernets'', YMap [(KStr ''eth0'', YMap [(KStr ''dhcp4'', YBool True)])])])
   \<and> map_of BY_SECTION (KStr ''ethernets'') = Some EthernetInterface
   \<and> combine_files rd_examples [''/etc/netplan/01-base.yaml''] \<noteq> Inl (KeyError (KStr ''ethernets''))"
  using section_lookup_total [of rd_examples "[''/etc/netplan/01-base.yaml'']"]
    rd_examples_base
  by (simp add: BY_SECTION_def)

section \<open>Properties of the file locator\<close>

lemma fold_update_map_of:
  "map_of (fold (\<lambda>(k, v) files. AList.update k v files) pairs acc)
   = map_of acc ++ map_of (rev pairs)"
proof (induction pairs arbitrary: acc)
  case Nil
  then show ?case by simp
next
  case (Cons p pairs)
  obtain k v where p: "p = (k, v)" by (cases p)
  have "map_of (AList.update k v acc) ++ map_of (rev pairs)
      = map_of acc ++ (map_of [(k, v)] ++ map_of (rev pairs))"
    by (rule ext) (simp add: update_conv' map_add_def split: option.split)
  with Cons.IH [of "AList.update k v acc"] p show ?case by simp
qed

lemma fold_update_distinct:
  "distinct (map fst acc) \<Longrightarrow>
   distinct (map fst (fold (\<lambda>(k, v) files. AList.update k v files) pairs acc))"
  by (induction pairs arbitrary: acc) (auto simp: distinct_update)

lemma dict_of_map_of: "map_of (dict_of pairs) = map_of (rev pairs)"
  by (simp add: dict_of_def fold_update_map_of)

lemma dict_of_distinct: "distinct (map fst (dict_of pairs))"
  by (simp add: dict_of_def fold_update_distinct)

lemma dict_of_keys: "fst ` set (dict_of pairs) = fst ` set pairs"
proof -
  have "dom (map_of (dict_of pairs)) = dom (map_of (rev pairs))"
    by (simp add: dict_of_map_of)
  then show ?thesis by (simp add: dom_map_of_conv_image_fst)
qed

lemma getitems_present:
  "\<forall>n \<in> set names. map_of files n \<noteq> None \<Longrightarrow>
   getitems files names = Inr (map (\<lambda>n. the (map_of files n)) names)"
  by (induction names) auto

lemma candidates_iff:
  "(n, p) \<in> set (candidates fs d) \<longleftrightarrow>
     n \<in> set (listdir fs d) \<and> endswith n ''.yaml'' \<and> isfile fs (path_join d n)
     \<and> p = path_join d n"
  by (auto simp: candidates_def)

lemma map_of_graph:
  "\<forall>(k, v) \<in> set xs. v = g k \<Longrightarrow>
   map_of xs k = (if k \<in> fst ` set xs then Some (g k) else None)"
  by (induction xs) (auto simp: rev_image_eqI)

lemma candidates_map_of:
  "map_of (rev (candidates fs d)) n =
     (if n \<in> fst ` set (candidates fs d) then Some (path_join d n) else None)"
proof -
  have "\<forall>(k, v) \<in> set (rev (candidates fs d)). v = path_join d k"
    by (auto simp: candidates_iff)
  from map_of_graph [OF this] show ?thesis by simp
qed

lemma candidates_keys:
  "n \<in> fst ` set (candidates fs d) \<longleftrightarrow>
     n \<in> set (listdir fs d) \<and> endswith n ''.yaml'' \<and> isfile fs (path_join d n)"
proof -
  have "n \<in> fst ` set (candidates fs d) \<longleftrightarrow> (\<exists>p. (n, p) \<in> set (candidates fs d))"
    by force
  then show ?thesis by (simp add: candidates_iff)
qed

lemma concat_candidates_map_of:
  "map_of (rev (concat (map (candidates fs) ds))) n =
     (if \<exists>d \<in> set ds. n \<in> fst ` set (candidates fs d)
      then Some (path_join (last (filter (\<lambda>d. n \<in> fst ` set (candidates fs d)) ds)) n)
      else None)"
proof (induction ds rule: rev_induct)
  case Nil
  then show ?case by simp
next
  case (snoc d ds)
  show ?case
  proof (cases "n \<in> fst ` set (candidates fs d)")
    case True
    then show ?thesis
      by (simp add: candidates_map_of map_add_def)
  next
    case False
    with snoc.IH show ?thesis
      by (simp add: candidates_map_of map_add_def)
  qed
qed

lemma basename_plain:
  assumes "CHR ''/'' \<notin> set b"
  shows "basename b = b"
proof -
  have "takeWhile (\<lambda>c. c \<noteq> CHR ''/'') (rev b) = rev b"
    using assms by auto
  then show ?thesis by (simp only: basename_def rev_rev_ident)
qed

lemma basename_after_slash:
  assumes "CHR ''/'' \<notin> set b"
  shows "basename (a @ CHR ''/'' # b) = b"
proof -
  have "takeWhile (\<lambda>c. c \<noteq> CHR ''/'') (rev b @ CHR ''/'' # rev a)
      = rev b @ takeWhile (\<lambda>c. c \<noteq> CHR ''/'') (CHR ''/'' # rev a)"
    by (rule takeWhile_append2) (use assms in auto)
  then have "takeWhile (\<lambda>c. c \<noteq> CHR ''/'') (rev (a @ CHR ''/'' # b)) = rev b"
    by simp
  then show ?thesis by (simp only: basename_def rev_rev_ident)
qed

lemma basename_path_join:
  assumes "CHR ''/'' \<notin> set b"
  shows "basename (path_join a b) = b"
proof -
  have hd: "\<not> (b \<noteq> [] \<and> hd b = CHR ''/'')" using assms by (cases b) auto
  show ?thesis
  proof (cases "a = []")
    case True
    with hd basename_plain [OF assms] show ?thesis
      by (simp add: path_join_def)
  next
    case False
    show ?thesis
    proof (cases "last a = CHR ''/''")
      case True
      with False obtain a' where a': "a = a' @ [CHR ''/'']"
        by (metis append_butlast_last_id)
      have "path_join a b = a' @ CHR ''/'' # b"
        using hd by (simp add: path_join_def a')
      with basename_after_slash [OF assms] show ?thesis by simp
    next
      case nl: False
      have "path_join a b = a @ CHR ''/'' # b"
        using hd nl False by (simp add: path_join_def)
      with basename_after_slash [OF assms] show ?thesis by simp
    qed
  qed
qed


lemma offers_candidates:
  "offers fs d n \<longleftrightarrow> isdir fs d \<and> n \<in> fst ` set (candidates fs d)"
  by (auto simp: offers_def candidates_keys)

lemma found_map_of:
  "map_of (rev (concat (map (candidates fs) (filter (isdir fs) dirs)))) n =
     (if \<exists>d \<in> set dirs. offers fs d n
      then Some (path_join (last (filter (\<lambda>d. offers fs d n) dirs)) n)
      else None)"
proof -
  have "filter (\<lambda>d. n \<in> fst ` set (candidates fs d)) (filter (isdir fs) dirs)
      = filter (\<lambda>d. offers fs d n) dirs"
    by (induction dirs) (auto simp: offers_candidates)
  moreover have "(\<exists>d \<in> set (filter (isdir fs) dirs). n \<in> fst ` set (candidates fs d))
      \<longleftrightarrow> (\<exists>d \<in> set dirs. offers fs d n)"
    by (auto simp: offers_candidates)
  ultimately show ?thesis
    by (simp only: concat_candidates_map_of)
qed

lemma keys_concat:
  "n \<in> fst ` set (concat (map g ds)) \<longleftrightarrow> (\<exists>d \<in> set ds. n \<in> fst ` set (g d))"
  by (induction ds) auto

lemma found_keys:
  "fst ` set (concat (map (candidates fs) (filter (isdir fs) dirs)))
   = {n. \<exists>d \<in> set dirs. offers fs d n}"
  unfolding set_eq_iff keys_concat
  by (auto simp: offers_candidates)

text \<open>
  Claim C8. \<open>find_files\<close> returns one path per name that some directory of the list offers:
  the names are distinct and sorted, every offered name is among them, and the path of a
  name joins it to the last directory of the list that offers it. The base names of the
  returned paths are these names, in this sorted order, when directory listings hold plain
  names. Paths of the list that are not directories change nothing, and the empty list of
  directories gives the empty list of files.
\<close>

theorem find_files_result:
  "(\<exists>names.
      find_files fs dirs
        = Inr (map (\<lambda>n. path_join (last (filter (\<lambda>d. offers fs d n) dirs)) n) names)
      \<and> sorted names \<and> distinct names
      \<and> set names = {n. \<exists>d \<in> set dirs. offers fs d n}
      \<and> ((\<forall>d n. n \<in> set (listdir fs d) \<longrightarrow> CHR ''/'' \<notin> set n)
           \<longrightarrow> map basename
                 (map (\<lambda>n. path_join (last (filter (\<lambda>d. offers fs d n) dirs)) n) names)
               = names))
   \<and> find_files fs (filter (isdir fs) dirs) = find_files fs dirs
   \<and> find_files fs [] = Inr []"
proof (intro conjI)
  define pairs where "pairs = concat (map (candidates fs) (filter (isdir fs) dirs))"
  define files where "files = dict_of pairs"
  define names where "names = sort (map fst files)"
  have "set names = fst ` set pairs"
    by (simp add: names_def files_def dict_of_keys)
  also have "\<dots> = {n. \<exists>d \<in> set dirs. offers fs d n}"
    unfolding pairs_def by (rule found_keys)
  finally have keys: "set names = {n. \<exists>d \<in> set dirs. offers fs d n}" .
  have lookup: "map_of files n = Some (path_join (last (filter (\<lambda>d. offers fs d n) dirs)) n)"
    if "n \<in> set names" for n
  proof -
    have "map_of files n = map_of (rev pairs) n"
      by (simp add: files_def dict_of_map_of)
    also have "\<dots> = (if \<exists>d \<in> set dirs. offers fs d n
        then Some (path_join (last (filter (\<lambda>d. offers fs d n) dirs)) n) else None)"
      unfolding pairs_def by (rule found_map_of)
    finally show ?thesis using that keys by auto
  qed
  then have "\<forall>n \<in> set names. map_of files n \<noteq> None" by simp
  from getitems_present [OF this]
  have "getitems files names = Inr (map (\<lambda>n. the (map_of files n)) names)" .
  moreover have "map (\<lambda>n. the (map_of files n)) names
      = map (\<lambda>n. path_join (last (filter (\<lambda>d. offers fs d n) dirs)) n) names"
    by (rule map_cong) (simp_all add: lookup)
  ultimately have result: "find_files fs dirs
      = Inr (map (\<lambda>n. path_join (last (filter (\<lambda>d. offers fs d n) dirs)) n) names)"
    by (simp add: find_files_def Let_def files_def pairs_def names_def)
  have sorted: "sorted names" by (simp add: names_def)
  have "distinct (map fst files)" by (simp add: files_def dict_of_distinct)
  then have dist: "distinct names" by (simp add: names_def)
  have base: "map basename
      (map (\<lambda>n. path_join (last (filter (\<lambda>d. offers fs d n) dirs)) n) names) = names"
    if slash: "\<forall>d n. n \<in> set (listdir fs d) \<longrightarrow> CHR ''/'' \<notin> set n"
  proof -
    have "CHR ''/'' \<notin> set n" if "n \<in> set names" for n
      using that keys slash by (auto simp: offers_def)
    then show ?thesis
      by (simp add: basename_path_join map_idI)
  qed
  from result sorted dist keys base
  show "\<exists>names.
      find_files fs dirs
        = Inr (map (\<lambda>n. path_join (last (filter (\<lambda>d. offers fs d n) dirs)) n) names)
      \<and> sorted names \<and> distinct names
      \<and> set names = {n. \<exists>d \<in> set dirs. offers fs d n}
      \<and> ((\<forall>d n. n \<in> set (listdir fs d) \<longrightarrow> CHR ''/'' \<notin> set n)
           \<longrightarrow> map basename
                 (map (\<lambda>n. path_join (last (filter (\<lambda>d. offers fs d n) dirs)) n) names)
               = names)"
    by blast
next
  show "find_files fs (filter (isdir fs) dirs) = find_files fs dirs"
    by (simp add: find_files_def)
next
  show "find_files fs [] = Inr []"
    by (simp add: find_files_def dict_of_def)
qed

theorem find_files_result_witness:
  "find_files fs_example NETPLAN_DIRS
     = Inr [''/lib/netplan/01-a.yaml'', ''/etc/netplan/05-c.yaml'', ''/etc/netplan/10-b.yaml'']
   \<and> (\<exists>names. [''/lib/netplan/01-a.yaml'', ''/etc/netplan/05-c.yaml'', ''/etc/netplan/10-b.yaml'']
         = map (\<lambda>n. path_join (last (filter (\<lambda>d. offers fs_example d n) NETPLAN_DIRS)) n) names
       \<and> sorted names \<and> distinct names)"
proof -
  have computed: "find_files fs_example NETPLAN_DIRS
     = Inr [''/lib/netplan/01-a.yaml'', ''/etc/netplan/05-c.yaml'', ''/etc/netplan/10-b.yaml'']"
    by code_simp
  from find_files_result [of fs_example NETPLAN_DIRS] obtain names where
    result: "find_files fs_example NETPLAN_DIRS
      = Inr (map (\<lambda>n. path_join (last (filter (\<lambda>d. offers fs_example d n) NETPLAN_DIRS)) n) names)"
    and order: "sorted names" "distinct names"
    by blast
  from result computed
  have "[''/lib/netplan/01-a.yaml'', ''/etc/netplan/05-c.yaml'', ''/etc/netplan/10-b.yaml'']
      = map (\<lambda>n. path_join (last (filter (\<lambda>d. offers fs_example d n) NETPLAN_DIRS)) n) names"
    by simp
  then have "\<exists>names. [''/lib/netplan/01-a.yaml'', ''/etc/netplan/05-c.yaml'', ''/etc/netplan/10-b.yaml'']
         = map (\<lambda>n. path_join (last (filter (\<lambda>d. offers fs_example d n) NETPLAN_DIRS)) n) names
       \<and> sorted names \<and> distinct names"
    using order by (intro exI [of _ names] conjI)
  with computed show ?thesis by (rule conjI)
qed

section \<open>Properties of the relationship resolver\<close>

lemma closure_visited: "set visited \<subseteq> set (closure c work visited)"
  by (induction c work visited rule: closure.induct) (auto split: option.splits)

lemma closure_work:
  "n \<in> set work \<Longrightarrow> n \<in> fst ` set c \<Longrightarrow> n \<in> set (closure c work visited)"
proof (induction c work visited rule: closure.induct)
  case (1 c visited)
  then show ?case by simp
next
  case (2 c m work visited)
  show ?case
  proof (cases "m \<in> set visited")
    case True
    with 2 closure_visited [of visited c work] show ?thesis by auto
  next
    case False
    show ?thesis
    proof (cases "map_of c m")
      case None
      then have "m \<notin> fst ` set c" by (simp add: map_of_eq_None_iff)
      with 2 False None show ?thesis by auto
    next
      case (Some i)
      with 2 False closure_visited [of "m # visited" c "references (kind i) @ work"]
      show ?thesis by auto
    qed
  qed
qed

lemma closure_distinct:
  "distinct visited \<Longrightarrow> distinct (closure c work visited)"
  by (induction c work visited rule: closure.induct) (auto split: option.splits)

lemma closure_keys:
  "set visited \<subseteq> fst ` set c \<Longrightarrow> set (closure c work visited) \<subseteq> fst ` set c"
proof (induction c work visited rule: closure.induct)
  case (1 c visited)
  then show ?case by simp
next
  case (2 c m work visited)
  show ?case
  proof (cases "m \<in> set visited")
    case True
    with 2 show ?thesis by simp
  next
    case False
    show ?thesis
    proof (cases "map_of c m")
      case None
      with 2 False show ?thesis by simp
    next
      case (Some i)
      then have "m \<in> fst ` set c" by (rule map_of_Some_key)
      with 2 False Some show ?thesis by simp
    qed
  qed
qed

lemma closure_closed:
  assumes "\<forall>x \<in> set visited. \<forall>y. (x, y) \<in> refers c \<longrightarrow> y \<in> set visited \<union> set work"
  shows "\<forall>x \<in> set (closure c work visited). \<forall>y. (x, y) \<in> refers c
           \<longrightarrow> y \<in> set (closure c work visited)"
  using assms
proof (induction c work visited rule: closure.induct)
  case (1 c visited)
  then show ?case by simp
next
  case (2 c m work visited)
  show ?case
  proof (cases "m \<in> set visited")
    case True
    from 2(4) True have "\<forall>x \<in> set visited. \<forall>y. (x, y) \<in> refers c \<longrightarrow> y \<in> set visited \<union> set work"
      by auto
    from 2(1) [OF True this] True show ?thesis by simp
  next
    case False
    show ?thesis
    proof (cases "map_of c m")
      case None
      then have "m \<notin> fst ` set c" by (simp add: map_of_eq_None_iff)
      with 2(4) have "\<forall>x \<in> set visited. \<forall>y. (x, y) \<in> refers c \<longrightarrow> y \<in> set visited \<union> set work"
        by (auto simp: refers_def)
      from 2(2) [OF False None this] False None show ?thesis by simp
    next
      case (Some i)
      from 2(4) Some have "\<forall>x \<in> set (m # visited). \<forall>y. (x, y) \<in> refers c
          \<longrightarrow> y \<in> set (m # visited) \<union> set (references (kind i) @ work)"
        by (auto simp: refers_def)
      from 2(3) [OF False Some this] False Some show ?thesis by simp
    qed
  qed
qed

lemma closure_sound:
  "set (closure c work visited)
   \<subseteq> set visited \<union> (refers c)\<^sup>* `` (set work \<inter> fst ` set c)"
proof (induction c work visited rule: closure.induct)
  case (1 c visited)
  then show ?case by simp
next
  case (2 c m work visited)
  show ?case
  proof (cases "m \<in> set visited")
    case True
    with 2(1) show ?thesis by auto
  next
    case False
    show ?thesis
    proof (cases "map_of c m")
      case None
      with 2(2) False show ?thesis by auto
    next
      case (Some i)
      then have key: "m \<in> fst ` set c" by (rule map_of_Some_key)
      have step: "(refers c)\<^sup>* `` (set (references (kind i) @ work) \<inter> fst ` set c)
          \<subseteq> (refers c)\<^sup>* `` (set (m # work) \<inter> fst ` set c)"
      proof
        fix y
        assume "y \<in> (refers c)\<^sup>* `` (set (references (kind i) @ work) \<inter> fst ` set c)"
        then obtain x where x: "x \<in> set (references (kind i) @ work)" "x \<in> fst ` set c"
          and reach: "(x, y) \<in> (refers c)\<^sup>*" by auto
        show "y \<in> (refers c)\<^sup>* `` (set (m # work) \<inter> fst ` set c)"
        proof (cases "x \<in> set work")
          case True
          with x reach show ?thesis by auto
        next
          case False
          with x Some have "(m, x) \<in> refers c" by (auto simp: refers_def)
          from this reach have "(m, y) \<in> (refers c)\<^sup>*" by (rule converse_rtrancl_into_rtrancl)
          with key show ?thesis by auto
        qed
      qed
      from key have "m \<in> (refers c)\<^sup>* `` (set (m # work) \<inter> fst ` set c)" by auto
      with 2(3) [OF False Some] step False Some show ?thesis by auto
    qed
  qed
qed

lemma closure_reachable:
  "set (closure c seed_names []) = (refers c)\<^sup>* `` (set seed_names \<inter> fst ` set c)"
proof
  show "set (closure c seed_names []) \<subseteq> (refers c)\<^sup>* `` (set seed_names \<inter> fst ` set c)"
    using closure_sound [of c seed_names "[]"] by simp
next
  have closed: "\<forall>x \<in> set (closure c seed_names []). \<forall>y. (x, y) \<in> refers c
      \<longrightarrow> y \<in> set (closure c seed_names [])"
    by (rule closure_closed) simp
  show "(refers c)\<^sup>* `` (set seed_names \<inter> fst ` set c) \<subseteq> set (closure c seed_names [])"
  proof
    fix y
    assume "y \<in> (refers c)\<^sup>* `` (set seed_names \<inter> fst ` set c)"
    then obtain x where x: "x \<in> set seed_names" "x \<in> fst ` set c"
      and reach: "(x, y) \<in> (refers c)\<^sup>*" by auto
    from reach show "y \<in> set (closure c seed_names [])"
    proof (induction rule: rtrancl_induct)
      case base
      from x show ?case by (simp add: closure_work)
    next
      case (step y z)
      with closed show ?case by blast
    qed
  qed
qed


text \<open>
  Claim C2. For seed names that are all in the container, \<open>get_all_interfaces\<close> and
  \<open>get_physical_interfaces\<close> return containers; the first holds every seed name; the second
  is part of the first; and every interface of the second is Ethernet or Wireless,
  a kind without outgoing references.
\<close>

theorem resolver_results:
  assumes "set seed_names \<subseteq> fst ` set c"
  shows "\<exists>found phys.
           get_all_interfaces c seed_names = Inr found
         \<and> get_physical_interfaces c seed_names = Inr phys
         \<and> set seed_names \<subseteq> fst ` set found
         \<and> set phys \<subseteq> set found
         \<and> (\<forall>(n, i) \<in> set phys. (kind i = Ethernet \<or> kind i = Wireless)
                                  \<and> references (kind i) = [])"
proof -
  define found where "found = filter (\<lambda>(n, i). n \<in> set (closure c seed_names [])) c"
  define phys where "phys = filter (\<lambda>(n, i). physical (kind i)) found"
  from assms have "set seed_names - fst ` set c = {}" by auto
  then have all: "get_all_interfaces c seed_names = Inr found"
    by (simp add: get_all_interfaces_def found_def)
  then have ph: "get_physical_interfaces c seed_names = Inr phys"
    by (simp add: get_physical_interfaces_def phys_def)
  have seeds: "set seed_names \<subseteq> fst ` set found"
  proof
    fix s
    assume s: "s \<in> set seed_names"
    with assms obtain i where i: "(s, i) \<in> set c" by auto
    from s i have "s \<in> set (closure c seed_names [])"
      by (intro closure_work) (auto simp: rev_image_eqI)
    with i have "(s, i) \<in> set found" by (simp add: found_def)
    then show "s \<in> fst ` set found" by (auto simp: rev_image_eqI)
  qed
  have sub: "set phys \<subseteq> set found" by (auto simp: phys_def)
  have leaves: "\<forall>(n, i) \<in> set phys. (kind i = Ethernet \<or> kind i = Wireless)
      \<and> references (kind i) = []"
  proof (clarify)
    fix n i
    assume "(n, i) \<in> set phys"
    then have "physical (kind i)" by (simp add: phys_def)
    then show "(kind i = Ethernet \<or> kind i = Wireless) \<and> references (kind i) = []"
      by (cases "kind i") simp_all
  qed
  from all ph seeds sub leaves show ?thesis by blast
qed

theorem resolver_results_witness:
  "set [''vlan10'', ''br0''] \<subseteq> fst ` set netplan_example
   \<and> get_all_interfaces netplan_example [''vlan10'', ''br0'']
     = Inr (filter (\<lambda>(n, i). n \<in> set [''bond0'', ''br0'', ''eth0'', ''eth1'', ''vlan10''])
              netplan_example)
   \<and> get_physical_interfaces netplan_example [''vlan10'', ''br0'']
     = Inr (filter (\<lambda>(n, i). n \<in> set [''eth0'', ''eth1'']) netplan_example)
   \<and> (\<exists>found. get_all_interfaces netplan_example [''vlan10'', ''br0''] = Inr found
         \<and> set [''vlan10'', ''br0''] \<subseteq> fst ` set found)"
proof -
  have seeds: "set [''vlan10'', ''br0''] \<subseteq> fst ` set netplan_example"
    by (simp add: netplan_example_def)
  have found: "get_all_interfaces netplan_example [''vlan10'', ''br0'']
     = Inr (filter (\<lambda>(n, i). n \<in> set [''bond0'', ''br0'', ''eth0'', ''eth1'', ''vlan10''])
              netplan_example)"
    by code_simp
  have phys: "get_physical_interfaces netplan_example [''vlan10'', ''br0'']
     = Inr (filter (\<lambda>(n, i). n \<in> set [''eth0'', ''eth1'']) netplan_example)"
    by code_simp
  from resolver_results [OF seeds] obtain f where
    "get_all_interfaces netplan_example [''vlan10'', ''br0''] = Inr f"
    and "set [''vlan10'', ''br0''] \<subseteq> fst ` set f"
    by blast
  then have "\<exists>found. get_all_interfaces netplan_example [''vlan10'', ''br0''] = Inr found
         \<and> set [''vlan10'', ''br0''] \<subseteq> fst ` set found"
    by blast
  with seeds found phys show ?thesis by (intro conjI)
qed

lemma cycle_reach:
  assumes "map_of c a = Some ia" and "map_of c b = Some ib"
    and "set (references (kind ia)) \<inter> fst ` set c = {b}"
    and "set (references (kind ib)) \<inter> fst ` set c = {a}"
    and "x = a \<or> x = b"
  shows "(refers c)\<^sup>* `` {x} = {a, b}"
proof
  have ab: "(a, b) \<in> refers c" using assms(1,3) by (auto simp: refers_def)
  have ba: "(b, a) \<in> refers c" using assms(2,4) by (auto simp: refers_def)
  from ab ba assms(5) show "{a, b} \<subseteq> (refers c)\<^sup>* `` {x}" by auto
  have stay: "z \<in> {a, b}" if "y \<in> {a, b}" and "(y, z) \<in> refers c" for y z
    using that assms(1-4) by (auto simp: refers_def)
  show "(refers c)\<^sup>* `` {x} \<subseteq> {a, b}"
  proof
    fix y
    assume "y \<in> (refers c)\<^sup>* `` {x}"
    then have "(x, y) \<in> (refers c)\<^sup>*" by simp
    then show "y \<in> {a, b}"
    proof (induction rule: rtrancl_induct)
      case base
      from assms(5) show ?case by auto
    next
      case (step y z)
      from stay [OF step.IH step.hyps(2)] show ?case .
    qed
  qed
qed

text \<open>
  Claim C3. The traversal is a total function (its termination is proved with its
  definition, for every container, cyclic or not). It marks each name at most once and only
  keys of the container, so it marks no more names than the container has keys. In a
  container where \<open>a\<close> refers to \<open>b\<close> and \<open>b\<close> to \<open>a\<close>, and to no other key, the closure of
  either of them is exactly the two, and \<open>get_all_interfaces\<close> returns the container
  restricted to them.
\<close>

theorem closure_on_cycles:
  "distinct (closure c seed_names [])
   \<and> set (closure c seed_names []) \<subseteq> fst ` set c
   \<and> length (closure c seed_names []) \<le> card (fst ` set c)
   \<and> (map_of c a = Some ia \<and> map_of c b = Some ib
        \<and> set (references (kind ia)) \<inter> fst ` set c = {b}
        \<and> set (references (kind ib)) \<inter> fst ` set c = {a}
        \<and> (x = a \<or> x = b)
      \<longrightarrow> set (closure c [x] []) = {a, b}
        \<and> get_all_interfaces c [x] = Inr (filter (\<lambda>(n, i). n = a \<or> n = b) c))"
proof (intro conjI impI)
  show d: "distinct (closure c seed_names [])"
    by (rule closure_distinct) simp
  show k: "set (closure c seed_names []) \<subseteq> fst ` set c"
    by (rule closure_keys) simp
  from d have "length (closure c seed_names []) = card (set (closure c seed_names []))"
    by (simp add: distinct_card)
  also from k have "\<dots> \<le> card (fst ` set c)"
    by (intro card_mono) auto
  finally show "length (closure c seed_names []) \<le> card (fst ` set c)" .
next
  assume h: "map_of c a = Some ia \<and> map_of c b = Some ib
        \<and> set (references (kind ia)) \<inter> fst ` set c = {b}
        \<and> set (references (kind ib)) \<inter> fst ` set c = {a}
        \<and> (x = a \<or> x = b)"
  then have keys: "a \<in> fst ` set c" "b \<in> fst ` set c"
    by (auto dest: map_of_Some_key)
  with h have xin: "set [x] \<inter> fst ` set c = {x}" by auto
  from h have "(refers c)\<^sup>* `` {x} = {a, b}"
    by (intro cycle_reach [of c a ia b ib x]) auto
  with xin show cl: "set (closure c [x] []) = {a, b}"
    by (simp only: closure_reachable)
  from keys h have "set [x] - fst ` set c = {}" by auto
  then have "get_all_interfaces c [x]
      = Inr (filter (\<lambda>(n, i). n \<in> set (closure c [x] [])) c)"
    by (simp add: get_all_interfaces_def)
  with cl show "get_all_interfaces c [x] = Inr (filter (\<lambda>(n, i). n = a \<or> n = b) c)"
    by (simp add: insert_commute disj_commute)
qed

theorem closure_on_cycles_witness:
  "get_all_interfaces netplan_example [''vlan21'']
     = Inr (filter (\<lambda>(n, i). n = ''vlan20'' \<or> n = ''vlan21'') netplan_example)
   \<and> closure netplan_example [''vlan21''] [] = [''vlan20'', ''vlan21'']"
proof -
  have a: "map_of netplan_example ''vlan20''
      = Some \<lparr>name = ''vlan20'', section = ''vlans'', raw_definition = YMap [],
               kind = VLAN ''vlan21''\<rparr>"
    by (simp add: netplan_example_def)
  have b: "map_of netplan_example ''vlan21''
      = Some \<lparr>name = ''vlan21'', section = ''vlans'', raw_definition = YMap [],
               kind = VLAN ''vlan20''\<rparr>"
    by (simp add: netplan_example_def)
  have ra: "set (references (kind \<lparr>name = ''vlan20'', section = ''vlans'', raw_definition = YMap [],
               kind = VLAN ''vlan21''\<rparr>)) \<inter> fst ` set netplan_example = {''vlan21''}"
    by (simp add: netplan_example_def)
  have rb: "set (references (kind \<lparr>name = ''vlan21'', section = ''vlans'', raw_definition = YMap [],
               kind = VLAN ''vlan20''\<rparr>)) \<inter> fst ` set netplan_example = {''vlan20''}"
    by (simp add: netplan_example_def)
  have run: "closure netplan_example [''vlan21''] [] = [''vlan20'', ''vlan21'']"
    by code_simp
  from closure_on_cycles [of netplan_example "[]" "''vlan20''" _ "''vlan21''" _ "''vlan21''"]
    a b ra rb
  have "get_all_interfaces netplan_example [''vlan21'']
     = Inr (filter (\<lambda>(n, i). n = ''vlan20'' \<or> n = ''vlan21'') netplan_example)"
    by blast
  then show ?thesis using run by (intro conjI)
qed

end
